theory Spec2Isabelle
  imports Complex_Main
begin

section \<open>JavaScript numbers\<close>

text \<open>
  A JavaScript number is an IEEE-754 double: a finite value, one of the two
  infinities, or NaN. A finite double is modelled by its value, a real number. The
  arithmetic follows IEEE-754: the result of an operation on finite values is the
  exact result rounded to the nearest double, ties to even, and an infinity when
  that is out of range; a division by zero is not an error, it gives NaN or an
  infinity; every operation on NaN gives NaN and every comparison with NaN is false.
  The sign of zero is not part of the model.
\<close>

datatype jsnum = Fin real | PInf | NInf | NaN

fun isNaN :: "jsnum \<Rightarrow> bool" where
  "isNaN NaN = True"
| "isNaN _ = False"

text \<open>
  Rounding to binary64. The doubles next to \<open>x\<close> are the multiples of
  \<open>2 powi ulp_exponent x\<close>: 53 significant bits, and the fixed spacing \<open>2 powi - 1074\<close>
  of the subnormal range. \<open>round_half_even\<close> is the nearest integer, the even one at
  a tie. A result of magnitude \<open>2 ^ 1024\<close> or more is out of range.
\<close>

definition ulp_exponent :: "real \<Rightarrow> int" where
  "ulp_exponent x = max (\<lfloor>log 2 \<bar>x\<bar>\<rfloor> - 52) (- 1074)"

definition round_half_even :: "real \<Rightarrow> int" where
  "round_half_even r =
     (let f = \<lfloor>r\<rfloor> in
      if r - of_int f < 1 / 2 then f
      else if 1 / 2 < r - of_int f then f + 1
      else if even f then f else f + 1)"

definition round64 :: "real \<Rightarrow> jsnum" where
  "round64 x =
     (if x = 0 then Fin 0
      else
        let q = 2 powi ulp_exponent x;
            y = of_int (round_half_even (x / q)) * q
        in if 2 ^ 1024 \<le> \<bar>y\<bar> then (if 0 < x then PInf else NInf) else Fin y)"

text \<open>
  Every double is a multiple of the least positive double, \<open>2 powi - 1074\<close>.
\<close>

definition on_grid :: "real \<Rightarrow> bool" where
  "on_grid y \<longleftrightarrow> (\<exists>z::int. y = of_int z * 2 powi (- 1074))"

definition grid_value :: "jsnum \<Rightarrow> bool" where
  "grid_value x \<longleftrightarrow> (\<forall>y. x = Fin y \<longrightarrow> on_grid y)"

fun jneg :: "jsnum \<Rightarrow> jsnum" where
  "jneg (Fin x) = Fin (- x)"
| "jneg PInf = NInf"
| "jneg NInf = PInf"
| "jneg NaN = NaN"

fun jabs :: "jsnum \<Rightarrow> jsnum" where
  "jabs (Fin x) = Fin \<bar>x\<bar>"
| "jabs PInf = PInf"
| "jabs NInf = PInf"
| "jabs NaN = NaN"

fun jadd :: "jsnum \<Rightarrow> jsnum \<Rightarrow> jsnum" where
  "jadd (Fin x) (Fin y) = round64 (x + y)"
| "jadd NaN _ = NaN"
| "jadd _ NaN = NaN"
| "jadd PInf NInf = NaN"
| "jadd NInf PInf = NaN"
| "jadd PInf _ = PInf"
| "jadd _ PInf = PInf"
| "jadd NInf _ = NInf"
| "jadd _ NInf = NInf"

definition jsub :: "jsnum \<Rightarrow> jsnum \<Rightarrow> jsnum" where
  "jsub x y = jadd x (jneg y)"

text \<open>The product of an infinity and a finite number: the sign rule, and NaN at zero.\<close>

definition inf_times :: "bool \<Rightarrow> real \<Rightarrow> jsnum" where
  "inf_times positive x =
     (if x = 0 then NaN else if (0 < x) = positive then PInf else NInf)"

fun jmul :: "jsnum \<Rightarrow> jsnum \<Rightarrow> jsnum" where
  "jmul (Fin x) (Fin y) = round64 (x * y)"
| "jmul NaN _ = NaN"
| "jmul _ NaN = NaN"
| "jmul (Fin x) PInf = inf_times True x"
| "jmul (Fin x) NInf = inf_times False x"
| "jmul PInf (Fin y) = inf_times True y"
| "jmul NInf (Fin y) = inf_times False y"
| "jmul PInf PInf = PInf"
| "jmul NInf NInf = PInf"
| "jmul PInf NInf = NInf"
| "jmul NInf PInf = NInf"

fun jdiv :: "jsnum \<Rightarrow> jsnum \<Rightarrow> jsnum" where
  "jdiv (Fin x) (Fin y) =
     (if y = 0 then (if x = 0 then NaN else if 0 < x then PInf else NInf)
      else round64 (x / y))"
| "jdiv NaN _ = NaN"
| "jdiv _ NaN = NaN"
| "jdiv (Fin x) PInf = Fin 0"
| "jdiv (Fin x) NInf = Fin 0"
| "jdiv PInf (Fin y) = (if y < 0 then NInf else PInf)"
| "jdiv NInf (Fin y) = (if y < 0 then PInf else NInf)"
| "jdiv PInf PInf = NaN"
| "jdiv PInf NInf = NaN"
| "jdiv NInf PInf = NaN"
| "jdiv NInf NInf = NaN"

fun jsqrt :: "jsnum \<Rightarrow> jsnum" where
  "jsqrt (Fin x) = (if x < 0 then NaN else round64 (sqrt x))"
| "jsqrt PInf = PInf"
| "jsqrt NInf = NaN"
| "jsqrt NaN = NaN"

fun jlt :: "jsnum \<Rightarrow> jsnum \<Rightarrow> bool" where
  "jlt (Fin x) (Fin y) = (x < y)"
| "jlt NaN _ = False"
| "jlt _ NaN = False"
| "jlt _ NInf = False"
| "jlt PInf _ = False"
| "jlt NInf _ = True"
| "jlt _ PInf = True"

definition jgt :: "jsnum \<Rightarrow> jsnum \<Rightarrow> bool" where
  "jgt x y = jlt y x"

text \<open>Strict equality \<open>===\<close> of two numbers: NaN is not equal to itself.\<close>

definition strict_eq :: "jsnum \<Rightarrow> jsnum \<Rightarrow> bool" where
  "strict_eq x y = (x = y \<and> \<not> isNaN x)"

text \<open>
  A literal is the double nearest to what it writes. \<open>1e-10\<close> and \<open>1e-6\<close> are not
  doubles; the literals \<open>0.25\<close>, \<open>0.5\<close>, \<open>0.75\<close>, \<open>1.5\<close> and the small integers are.
\<close>

definition tol10 :: jsnum where
  "tol10 = round64 (1 / 10 ^ 10)"

definition tol6 :: jsnum where
  "tol6 = round64 (1 / 10 ^ 6)"

text \<open>\<open>Math.floor\<close>.\<close>

fun jfloor :: "jsnum \<Rightarrow> jsnum" where
  "jfloor (Fin x) = Fin (of_int \<lfloor>x\<rfloor>)"
| "jfloor v = v"

text \<open>
  \<open>Math.abs(r) < 1e-10 ? 0 : r\<close>, the clamp that the solvers apply to a residual.
\<close>

definition clamp_residual :: "jsnum \<Rightarrow> jsnum" where
  "clamp_residual r = (if jlt (jabs r) tol10 then Fin 0 else r)"

section \<open>Arrays\<close>

text \<open>An array element read by index: \<open>undefined\<close> (\<open>None\<close>) out of range.\<close>

definition js_nth :: "'a list \<Rightarrow> nat \<Rightarrow> 'a option" where
  "js_nth xs i = (if i < length xs then Some (xs ! i) else None)"

text \<open>
  An array read at a number: only an integer from 0 below the length names an
  element.
\<close>

definition js_index :: "'a list \<Rightarrow> jsnum \<Rightarrow> 'a option" where
  "js_index xs v =
     (case v of
        Fin r \<Rightarrow> if r = of_int \<lfloor>r\<rfloor> \<and> 0 \<le> r then js_nth xs (nat \<lfloor>r\<rfloor>) else None
      | _ \<Rightarrow> None)"

text \<open>
  \<open>[...xs].sort((a, b) => a - b)\<close>: a stable sort by the comparator, here an insertion
  sort that moves an element behind those the comparator puts before it (a positive
  result; NaN counts as 0).
\<close>

fun insort_js :: "jsnum \<Rightarrow> jsnum list \<Rightarrow> jsnum list" where
  "insort_js x [] = [x]"
| "insort_js x (y # ys) =
     (if jgt (jsub x y) (Fin 0) then y # insort_js x ys else x # y # ys)"

definition sort_js :: "jsnum list \<Rightarrow> jsnum list" where
  "sort_js xs = foldr insort_js xs []"

section \<open>The equation solvers (route/equations.js)\<close>

subsection \<open>Request validation\<close>

text \<open>
  The routes \<open>/quadratic\<close> and \<open>/linear\<close> run express-validator chains before the
  handler: \<open>isNumeric()\<close> on every coefficient, and on \<open>a\<close> the custom check that throws
  when \<open>value === 0\<close>. The chains do not stop at the first failure; the handler answers
  400 with the collected failures when there is one. \<open>isNumeric\<close> belongs to the
  validator package and is a parameter here; coefficients are numbers.
\<close>

datatype coefficient = FieldA | FieldB | FieldC

datatype violation = NotNumeric coefficient | ZeroCoefficient

datatype error =
    InvalidData "violation list"
  | TwoEquationsRequired
  | SingularSystem
  | ArrayRequired
  | InvalidNumbers
  | InvalidMethod
  | DatasetsRequired
  | TwoVariablesRequired
  | UnequalLengths
  | InternalError

definition check_numeric :: "(jsnum \<Rightarrow> bool) \<Rightarrow> coefficient \<Rightarrow> jsnum \<Rightarrow> violation list" where
  "check_numeric isNumeric f v = (if isNumeric v then [] else [NotNumeric f])"

definition check_nonzero :: "jsnum \<Rightarrow> violation list" where
  "check_nonzero v = (if strict_eq v (Fin 0) then [ZeroCoefficient] else [])"


subsection \<open>Linear equations\<close>



subsection \<open>Quadratic equations\<close>

definition validateQuadratic ::
  "(jsnum \<Rightarrow> bool) \<Rightarrow> jsnum \<Rightarrow> jsnum \<Rightarrow> jsnum \<Rightarrow> violation list" where
  "validateQuadratic isNumeric a b c =
     check_numeric isNumeric FieldA a @ check_nonzero a
     @ check_numeric isNumeric FieldB b @ check_numeric isNumeric FieldC c"

text \<open>
  \<open>verifySolutions\<close>: for each solution the residual \<open>a x x + b x + c\<close>, reported as 0
  when its magnitude is below 1e-10, and the flag that it is below 1e-6.
\<close>

record verified =
  v_x :: jsnum
  v_verification :: jsnum
  isValid :: bool

definition residual :: "jsnum \<Rightarrow> jsnum \<Rightarrow> jsnum \<Rightarrow> jsnum \<Rightarrow> jsnum" where
  "residual a b c x = jadd (jadd (jmul (jmul a x) x) (jmul b x)) c"

definition verifySolutions :: "jsnum \<Rightarrow> jsnum \<Rightarrow> jsnum \<Rightarrow> jsnum list \<Rightarrow> verified list" where
  "verifySolutions a b c solutions =
     map (\<lambda>x. let result = residual a b c x in
               \<lparr> v_x = x, v_verification = clamp_residual result,
                 isValid = jlt (jabs result) tol6 \<rparr>) solutions"

text \<open>The entry of the verification array for one solution.\<close>

definition verified_root :: "jsnum \<Rightarrow> jsnum \<Rightarrow> jsnum \<Rightarrow> jsnum \<Rightarrow> verified" where
  "verified_root a b c x =
     \<lparr> v_x = x,
       v_verification = (if jlt (jabs (residual a b c x)) tol10 then Fin 0 else residual a b c x),
       isValid = jlt (jabs (residual a b c x)) tol6 \<rparr>"

text \<open>
  The handler of \<open>POST /quadratic\<close>. The solutions are numbers, or pairs of a real
  and an imaginary part; only numbers are verified. The response fields
  \<open>equation\<close>, \<open>steps\<close> and \<open>timestamp\<close> are left out.
\<close>

datatype solutions = RealSolutions "jsnum list" | ComplexSolutions "(jsnum \<times> jsnum) list"

datatype solution_type = two_real | one_real | complex_roots

record quadratic_response =
  quad_a :: jsnum
  quad_b :: jsnum
  quad_c :: jsnum
  discriminant :: jsnum
  solutions :: solutions
  solution_type :: solution_type
  verification :: "verified list option"

definition solveQuadratic ::
  "(jsnum \<Rightarrow> bool) \<Rightarrow> jsnum \<Rightarrow> jsnum \<Rightarrow> jsnum \<Rightarrow> error + quadratic_response" where
  "solveQuadratic isNumeric a b c =
     (let errors = validateQuadratic isNumeric a b c in
      if errors \<noteq> [] then Inl (InvalidData errors)
      else
        let discriminant = jsub (jmul b b) (jmul (jmul (Fin 4) a) c) in
        if jgt discriminant (Fin 0) then
          let x1 = jdiv (jadd (jneg b) (jsqrt discriminant)) (jmul (Fin 2) a);
              x2 = jdiv (jsub (jneg b) (jsqrt discriminant)) (jmul (Fin 2) a);
              sorted = sort_js [x1, x2]
          in Inr \<lparr> quad_a = a, quad_b = b, quad_c = c, discriminant = discriminant,
                   solutions = RealSolutions sorted, solution_type = two_real,
                   verification = Some (verifySolutions a b c sorted) \<rparr>
        else if strict_eq discriminant (Fin 0) then
          let x = jdiv (jneg b) (jmul (Fin 2) a)
          in Inr \<lparr> quad_a = a, quad_b = b, quad_c = c, discriminant = discriminant,
                   solutions = RealSolutions [x], solution_type = one_real,
                   verification = Some (verifySolutions a b c [x]) \<rparr>
        else
          let realPart = jdiv (jneg b) (jmul (Fin 2) a);
              imagPart = jdiv (jsqrt (jneg discriminant)) (jmul (Fin 2) a)
          in Inr \<lparr> quad_a = a, quad_b = b, quad_c = c, discriminant = discriminant,
                   solutions = ComplexSolutions [(realPart, imagPart), (realPart, jneg imagPart)],
                   solution_type = complex_roots, verification = None \<rparr>)"

subsection \<open>Systems of two linear equations\<close>

text \<open>
  The handler of \<open>POST /system\<close>. An equation \<open>a x + b y = c\<close> is an object with the
  fields \<open>a\<close>, \<open>b\<close>, \<open>c\<close>; a missing (falsy) equation is \<open>None\<close>. The handler does not
  validate the fields; they are numbers here.
\<close>

record equation =
  eq_a :: jsnum
  eq_b :: jsnum
  eq_c :: jsnum

record system_response =
  sys_x :: jsnum
  sys_y :: jsnum
  determinant :: jsnum
  verification_eq1 :: jsnum
  verification_eq2 :: jsnum

definition solveSystem2x2 :: "equation option \<Rightarrow> equation option \<Rightarrow> error + system_response" where
  "solveSystem2x2 eq1 eq2 =
     (case (eq1, eq2) of
        (Some e1, Some e2) \<Rightarrow>
          (let a1 = eq_a e1; b1 = eq_b e1; c1 = eq_c e1;
               a2 = eq_a e2; b2 = eq_b e2; c2 = eq_c e2;
               det = jsub (jmul a1 b2) (jmul a2 b1)
           in if jlt (jabs det) tol10 then Inl SingularSystem
              else
                let x = jdiv (jsub (jmul c1 b2) (jmul c2 b1)) det;
                    y = jdiv (jsub (jmul a1 c2) (jmul a2 c1)) det
                in Inr \<lparr> sys_x = x, sys_y = y, determinant = det,
                         verification_eq1 = jadd (jmul a1 x) (jmul b1 y),
                         verification_eq2 = jadd (jmul a2 x) (jmul b2 y) \<rparr>)
      | _ \<Rightarrow> Inl TwoEquationsRequired)"

section \<open>Parsing and formatting equations (route/equations.js)\<close>

subsection \<open>Strings\<close>

text \<open>
  A string is the list of its code units, here those below 256: ASCII and the
  Latin-1 block, which holds the superscript two of \<open>x\<^sup>2\<close>.
\<close>

definition SUP2 :: char where
  "SUP2 = CHR 0xB2"

text \<open>The code units below 256 that \<open>\s\<close> matches, and \<open>toLowerCase\<close> on one code unit.\<close>

definition is_space :: "char \<Rightarrow> bool" where
  "is_space c \<longleftrightarrow>
     c \<in> set [CHR 0x09, CHR 0x0A, CHR 0x0B, CHR 0x0C, CHR 0x0D, CHR 0x20, CHR 0xA0]"

definition toLowerCase_char :: "char \<Rightarrow> char" where
  "toLowerCase_char c =
     (let n = (of_char c :: nat) in
      if (65 \<le> n \<and> n \<le> 90) \<or> (192 \<le> n \<and> n \<le> 222 \<and> n \<noteq> 215)
      then char_of (n + 32) else c)"

definition digits :: string where
  "digits = ''0123456789''"

text \<open>The decimal digits of a natural number.\<close>

fun show_nat :: "nat \<Rightarrow> string" where
  "show_nat n =
     (if n < 10 then [digits ! n]
      else show_nat (n div 10) @ [digits ! (n mod 10)])"

declare show_nat.simps [simp del]

subsection \<open>Numbers as strings\<close>

text \<open>
  A template literal converts a number \<open>x\<close> with \<open>Number::toString\<close>. For a positive
  finite \<open>x\<close> the standard takes integers \<open>n\<close>, \<open>k\<close> and \<open>s\<close> with \<open>k\<close> digits in \<open>s\<close>, such
  that \<open>s\<close> times \<open>10 powi (n - k)\<close> is read as the double \<open>x\<close>, with \<open>k\<close> as small as
  possible and, among those, \<open>s\<close> as close to \<open>x\<close> as possible (the even one at a tie).

  \<open>decimal_exponent x\<close> is the \<open>n\<close> with \<open>10 powi (n - 1) \<le> x < 10 powi n\<close>. When the
  power of ten above \<open>x\<close> is read as \<open>x\<close>, it is the answer, with one digit. Otherwise
  \<open>n\<close> is \<open>decimal_exponent x\<close>, and at each length \<open>k\<close> the two candidates are the
  multiples of \<open>10 powi (n - k)\<close> on either side of \<open>x\<close>: if any value of \<open>k\<close> digits is
  read as \<open>x\<close>, one of these is, and it is the closest. Seventeen digits are always
  enough: at that length the closer candidate is taken.
\<close>

definition decimal_exponent :: "real \<Rightarrow> int" where
  "decimal_exponent x = \<lfloor>log 10 x\<rfloor> + 1"

definition reads_as :: "real \<Rightarrow> int \<Rightarrow> int \<Rightarrow> bool" where
  "reads_as x s e \<longleftrightarrow> round64 (of_int s * 10 powi e) = Fin x"

definition closer :: "real \<Rightarrow> int \<Rightarrow> int \<Rightarrow> int" where
  "closer x e lo =
     (let below = x - of_int lo * 10 powi e;
          above = of_int (lo + 1) * 10 powi e - x
      in if below < above then lo
         else if above < below then lo + 1
         else if even lo then lo else lo + 1)"

definition digits_of_length :: "real \<Rightarrow> int \<Rightarrow> nat \<Rightarrow> int option" where
  "digits_of_length x n k =
     (let e = n - int k;
          lo = \<lfloor>x / 10 powi e\<rfloor>;
          lo_fits = (10 ^ (k - 1) \<le> lo \<and> lo < 10 ^ k \<and> reads_as x lo e);
          hi_fits = (10 ^ (k - 1) \<le> lo + 1 \<and> lo + 1 < 10 ^ k \<and> reads_as x (lo + 1) e)
      in if lo_fits \<and> hi_fits then Some (closer x e lo)
         else if lo_fits then Some lo
         else if hi_fits then Some (lo + 1)
         else None)"

fun shortest_digits :: "real \<Rightarrow> int \<Rightarrow> nat list \<Rightarrow> int \<times> nat" where
  "shortest_digits x n [] = (closer x (n - 17) \<lfloor>x / 10 powi (n - 17)\<rfloor>, 17)"
| "shortest_digits x n (k # ks) =
     (case digits_of_length x n k of
        Some s \<Rightarrow> (s, k)
      | None \<Rightarrow> shortest_digits x n ks)"

text \<open>
  The layout of the digits \<open>s\<close>: plain decimal when \<open>n\<close> is from -5 to 21, with zeros
  appended or a point inserted, and the exponent notation otherwise.
\<close>

definition layout :: "int \<Rightarrow> nat \<Rightarrow> int \<Rightarrow> string" where
  "layout s k n =
     (let ds = show_nat (nat s) in
      if int k \<le> n \<and> n \<le> 21 then ds @ replicate (nat (n - int k)) CHR ''0''
      else if 0 < n \<and> n \<le> 21 then take (nat n) ds @ ''.'' @ drop (nat n) ds
      else if - 6 < n \<and> n \<le> 0 then ''0.'' @ replicate (nat (- n)) CHR ''0'' @ ds
      else
        let exponent = (if 0 \<le> n - 1 then ''e+'' else ''e-'') @ show_nat (nat \<bar>n - 1\<bar>)
        in if k = 1 then ds @ exponent
           else take 1 ds @ ''.'' @ drop 1 ds @ exponent)"

definition positive_toString :: "real \<Rightarrow> string" where
  "positive_toString x =
     (let n = decimal_exponent x in
      if reads_as x 1 n then layout 1 1 (n + 1)
      else case shortest_digits x n [1..<17] of (s, k) \<Rightarrow> layout s k n)"

fun Number_toString :: "jsnum \<Rightarrow> string" where
  "Number_toString NaN = ''NaN''"
| "Number_toString PInf = ''Infinity''"
| "Number_toString NInf = ''-Infinity''"
| "Number_toString (Fin x) =
     (if x = 0 then ''0''
      else if x < 0 then CHR ''-'' # positive_toString (- x)
      else positive_toString x)"

subsection \<open>parseInt\<close>

text \<open>
  \<open>parseInt(str)\<close> with no radix: leading white space is skipped, then a sign, then
  the prefix \<open>0x\<close> or \<open>0X\<close> selects radix 16; the longest prefix of digits of the radix
  is the number, and NaN is the result when that prefix is empty. The result is a
  number: the double nearest to the integer that the digits write, which is that
  integer up to \<open>2 ^ 53\<close> and an infinity beyond the range of the doubles. (The
  standard lets an implementation read the decimal digits after the twentieth as
  zeros; here they are all read, as V8 does.)
\<close>

definition digit_value :: "char \<Rightarrow> nat" where
  "digit_value c =
     (let n = (of_char c :: nat) in
      if 48 \<le> n \<and> n \<le> 57 then n - 48
      else if 97 \<le> n \<and> n \<le> 122 then n - 87
      else if 65 \<le> n \<and> n \<le> 90 then n - 55
      else 36)"

definition is_digit_of :: "nat \<Rightarrow> char \<Rightarrow> bool" where
  "is_digit_of radix c \<longleftrightarrow> digit_value c < radix"

definition digits_value :: "nat \<Rightarrow> string \<Rightarrow> nat" where
  "digits_value radix z = foldl (\<lambda>acc c. acc * radix + digit_value c) 0 z"

definition parseInt :: "string \<Rightarrow> jsnum" where
  "parseInt str =
     (let s = dropWhile is_space str;
          negative = (s \<noteq> [] \<and> hd s = CHR ''-'');
          s1 = (if s \<noteq> [] \<and> (hd s = CHR ''+'' \<or> hd s = CHR ''-'') then tl s else s);
          hex = (take 2 s1 = ''0x'' \<or> take 2 s1 = ''0X'');
          radix = (if hex then 16 else 10);
          s2 = (if hex then drop 2 s1 else s1);
          z = takeWhile (is_digit_of radix) s2
      in if z = [] then NaN
         else
           let number = round64 (real (digits_value radix z))
           in if negative then jneg number else number)"

subsection \<open>Regular expressions\<close>

text \<open>
  The patterns of \<open>parseEquation\<close> are sequences of a character class with a greedy
  quantifier (\<open>c\<close>, \<open>c?\<close>, \<open>c*\<close>, \<open>c+\<close>) and of capturing groups, which are not nested.
  \<open>rx_match\<close> is the backtracking matcher at one start position: a quantifier first
  takes as much as it can and gives back one code unit at a time when the rest of
  the pattern fails. It carries the text of the open group and returns the texts of
  the groups in order. \<open>rx_search\<close> is \<open>String.prototype.match\<close> for a pattern without
  flags: the match at the leftmost start position that has one.
\<close>

datatype quantifier = One | Optional | Star | Plus

datatype item = Atom string quantifier | Open | Close

definition push :: "char \<Rightarrow> string option \<Rightarrow> string option" where
  "push c cur = map_option (\<lambda>t. t @ [c]) cur"

fun rx_match :: "item list \<Rightarrow> string \<Rightarrow> string option \<Rightarrow> string list \<Rightarrow> string list option" where
  "rx_match [] s cur caps = Some caps"
| "rx_match (Open # r) s cur caps = rx_match r s (Some []) caps"
| "rx_match (Close # r) s cur caps =
     rx_match r s None (caps @ [case cur of Some t \<Rightarrow> t | None \<Rightarrow> []])"
| "rx_match (Atom cls One # r) [] cur caps = None"
| "rx_match (Atom cls One # r) (c # s) cur caps =
     (if c \<in> set cls then rx_match r s (push c cur) caps else None)"
| "rx_match (Atom cls Optional # r) [] cur caps = rx_match r [] cur caps"
| "rx_match (Atom cls Optional # r) (c # s) cur caps =
     (if c \<in> set cls
      then (case rx_match r s (push c cur) caps of
              Some m \<Rightarrow> Some m
            | None \<Rightarrow> rx_match r (c # s) cur caps)
      else rx_match r (c # s) cur caps)"
| "rx_match (Atom cls Star # r) [] cur caps = rx_match r [] cur caps"
| "rx_match (Atom cls Star # r) (c # s) cur caps =
     (if c \<in> set cls
      then (case rx_match (Atom cls Star # r) s (push c cur) caps of
              Some m \<Rightarrow> Some m
            | None \<Rightarrow> rx_match r (c # s) cur caps)
      else rx_match r (c # s) cur caps)"
| "rx_match (Atom cls Plus # r) [] cur caps = None"
| "rx_match (Atom cls Plus # r) (c # s) cur caps =
     (if c \<in> set cls then rx_match (Atom cls Star # r) s (push c cur) caps else None)"

fun rx_search :: "item list \<Rightarrow> string \<Rightarrow> string list option" where
  "rx_search p [] = rx_match p [] None []"
| "rx_search p (c # s) =
     (case rx_match p (c # s) None [] of Some m \<Rightarrow> Some m | None \<Rightarrow> rx_search p s)"

text \<open>
  The five patterns, in the order of the source. \<open>coefficient_group\<close> is \<open>([+-]?\d*)\<close>,
  \<open>signed_optional\<close> is \<open>([+-]\d*)\<close> and \<open>signed_number\<close> is \<open>([+-]\d+)\<close>.
\<close>

definition lit :: "char \<Rightarrow> item" where
  "lit c = Atom [c] One"

definition coefficient_group :: "item list" where
  "coefficient_group = [Open, Atom ''+-'' Optional, Atom digits Star, Close]"

definition signed_optional :: "item list" where
  "signed_optional = [Open, Atom ''+-'' One, Atom digits Star, Close]"

definition signed_number :: "item list" where
  "signed_number = [Open, Atom ''+-'' One, Atom digits Plus, Close]"

definition equals_zero :: "item list" where
  "equals_zero = [lit CHR ''='', lit CHR ''0'']"

definition x_caret_2 :: "item list" where
  "x_caret_2 = [Atom ''*'' Optional, lit CHR ''x'', Atom ''^'' Optional, lit CHR ''2'']"

definition x_squared :: "item list" where
  "x_squared = [Atom ''*'' Optional, lit CHR ''x'', lit SUP2]"

definition times_x :: "item list" where
  "times_x = [Atom ''*'' Optional, lit CHR ''x'']"

definition quadratic_patterns :: "item list list" where
  "quadratic_patterns =
     [coefficient_group @ x_caret_2 @ signed_optional @ times_x @ signed_number @ equals_zero,
      coefficient_group @ x_squared @ signed_optional @ times_x @ signed_number @ equals_zero,
      coefficient_group @ x_caret_2 @ signed_number @ equals_zero,
      coefficient_group @ x_squared @ signed_number @ equals_zero]"

definition linear_patterns :: "item list list" where
  "linear_patterns = [coefficient_group @ times_x @ signed_number @ equals_zero]"

text \<open>The loop \<open>for (let pattern of patterns)\<close> up to its first match.\<close>

fun first_match :: "item list list \<Rightarrow> string \<Rightarrow> string list option" where
  "first_match [] eq = None"
| "first_match (pattern # patterns) eq =
     (case rx_search pattern eq of Some m \<Rightarrow> Some m | None \<Rightarrow> first_match patterns eq)"

subsection \<open>Formatting\<close>

definition formatQuadraticEquation :: "jsnum \<Rightarrow> jsnum \<Rightarrow> jsnum \<Rightarrow> string" where
  "formatQuadraticEquation a b c =
     (if strict_eq a (Fin 1) then [CHR ''x'', SUP2]
      else if strict_eq a (Fin (- 1)) then [CHR ''-'', CHR ''x'', SUP2]
      else Number_toString a @ [CHR ''x'', SUP2])
     @ (if jgt b (Fin 0)
        then '' + '' @ (if strict_eq b (Fin 1) then [] else Number_toString b) @ ''x''
        else if jlt b (Fin 0)
        then '' - '' @ (if strict_eq b (Fin (- 1)) then [] else Number_toString (jabs b)) @ ''x''
        else [])
     @ (if jgt c (Fin 0) then '' + '' @ Number_toString c
        else if jlt c (Fin 0) then '' - '' @ Number_toString (jabs c)
        else [])
     @ '' = 0''"

definition formatLinearEquation :: "jsnum \<Rightarrow> jsnum \<Rightarrow> string" where
  "formatLinearEquation a b =
     (if strict_eq a (Fin 1) then ''x''
      else if strict_eq a (Fin (- 1)) then ''-x''
      else Number_toString a @ ''x'')
     @ (if jgt b (Fin 0) then '' + '' @ Number_toString b
        else if jlt b (Fin 0) then '' - '' @ Number_toString (jabs b)
        else [])
     @ '' = 0''"

subsection \<open>parseEquation\<close>

text \<open>
  \<open>parseCoeff(str)\<close>: \<open>!str\<close> holds for \<open>undefined\<close> (\<open>None\<close>) and for the empty string.
\<close>

definition parseCoeff :: "string option \<Rightarrow> jsnum" where
  "parseCoeff str =
     (if str = None \<or> str = Some [] \<or> str = Some ''+'' then Fin 1
      else if str = Some ''-'' then Fin (- 1)
      else parseInt (the str))"

text \<open>
  \<open>v || d\<close> for a number \<open>v\<close>, which is falsy when it is 0 or NaN, and the test
  \<open>match[k] ? ... : ...\<close> of a group, which is falsy when it is \<open>undefined\<close> or empty.
\<close>

definition or_else :: "jsnum \<Rightarrow> jsnum \<Rightarrow> jsnum" where
  "or_else v d = (if v = NaN \<or> v = Fin 0 then d else v)"

definition truthy :: "string option \<Rightarrow> bool" where
  "truthy str \<longleftrightarrow> str \<noteq> None \<and> str \<noteq> Some []"

datatype coefficients = QuadraticCoefficients jsnum jsnum jsnum | LinearCoefficients jsnum jsnum

datatype parsed =
    Parsed coefficients string
  | NotRecognized "string list"

definition suggestions :: "string list" where
  "suggestions =
     [[CHR ''x'', SUP2] @ '' + 5x + 6 = 0'',
      [CHR ''2'', CHR ''x'', SUP2] @ '' - 3x + 1 = 0'',
      [CHR ''x'', SUP2] @ '' - 4 = 0'',
      ''3x + 6 = 0'']"

text \<open>
  \<open>equation.replace(/\s/g, '').toLowerCase()\<close> is \<open>strip_lower\<close>. \<open>match[k]\<close> is group
  \<open>k\<close>, at index \<open>k - 1\<close> of the list of groups. The result says \<open>type: 'quadratic'\<close>
  or \<open>'linear'\<close> by the constructor of its coefficients.
\<close>

definition strip_lower :: "string \<Rightarrow> string" where
  "strip_lower equation = map toLowerCase_char (filter (\<lambda>c. \<not> is_space c) equation)"

definition parseEquation :: "string \<Rightarrow> parsed" where
  "parseEquation equation =
     (let eq = strip_lower equation in
      case first_match quadratic_patterns eq of
        Some m \<Rightarrow>
          let a = or_else (parseCoeff (js_nth m 0)) (Fin 1);
              b = (if truthy (js_nth m 1) then parseCoeff (js_nth m 1) else Fin 0);
              c = (if truthy (js_nth m 2) then parseCoeff (js_nth m 2)
                   else parseCoeff (js_nth m 1))
          in Parsed (QuadraticCoefficients a b c) (formatQuadraticEquation a b c)
      | None \<Rightarrow>
          (case first_match linear_patterns eq of
             Some m \<Rightarrow>
               let a = or_else (parseCoeff (js_nth m 0)) (Fin 1);
                   b = or_else (parseCoeff (js_nth m 1)) (Fin 0)
               in Parsed (LinearCoefficients a b) (formatLinearEquation a b)
           | None \<Rightarrow> NotRecognized suggestions))"

section \<open>Statistics (server.js and the machine-learning routes)\<close>

subsection \<open>Request values and arrays\<close>

text \<open>
  A value of a parsed JSON body. \<open>JUndefined\<close> is a field that the body does not have.
  \<open>JSON.parse\<close> reads a literal beyond the range of a double, such as \<open>1e999\<close>, as
  \<open>Infinity\<close>, so a request can carry an infinite number.
\<close>

datatype jsval =
    JNum jsnum
  | JStr string
  | JBool bool
  | JNull
  | JUndefined
  | JArr "jsval list"
  | JObj "(string \<times> jsval) list"

text \<open>The filter \<open>typeof v === 'number' && !isNaN(v)\<close> of both statistics handlers.\<close>

fun is_valid_number :: "jsval \<Rightarrow> bool" where
  "is_valid_number (JNum n) = (\<not> isNaN n)"
| "is_valid_number _ = False"

fun the_number :: "jsval \<Rightarrow> jsnum" where
  "the_number (JNum n) = n"
| "the_number _ = NaN"

text \<open>
  The check that opens the handlers: the field must be a non-empty array, and the
  filtered array must be as long as the array. It returns the numbers.
\<close>

definition numeric_values :: "jsval \<Rightarrow> error + jsnum list" where
  "numeric_values values =
     (case values of
        JArr vs \<Rightarrow>
          if length vs = 0 then Inl ArrayRequired
          else
            let numericValues = filter is_valid_number vs in
            if length numericValues \<noteq> length vs then Inl InvalidNumbers
            else Inr (map the_number numericValues)
      | _ \<Rightarrow> Inl ArrayRequired)"

text \<open>In arithmetic \<open>undefined\<close> converts to NaN.\<close>

fun to_number :: "jsnum option \<Rightarrow> jsnum" where
  "to_number (Some v) = v"
| "to_number None = NaN"

definition num_at :: "jsnum list \<Rightarrow> nat \<Rightarrow> jsnum" where
  "num_at xs i = to_number (js_nth xs i)"

text \<open>
  \<open>Math.pow(x, n)\<close> for a natural exponent, as a repeated product, and
  \<open>Math.min(...xs)\<close> and \<open>Math.max(...xs)\<close>.
\<close>

fun jpow :: "jsnum \<Rightarrow> nat \<Rightarrow> jsnum" where
  "jpow x 0 = Fin 1"
| "jpow x (Suc 0) = x"
| "jpow x (Suc (Suc n)) = jmul x (jpow x (Suc n))"

definition jmin2 :: "jsnum \<Rightarrow> jsnum \<Rightarrow> jsnum" where
  "jmin2 a b = (if isNaN a \<or> isNaN b then NaN else if jlt b a then b else a)"

definition jmax2 :: "jsnum \<Rightarrow> jsnum \<Rightarrow> jsnum" where
  "jmax2 a b = (if isNaN a \<or> isNaN b then NaN else if jlt a b then b else a)"

definition Math_min :: "jsnum list \<Rightarrow> jsnum" where
  "Math_min xs = foldl jmin2 PInf xs"

definition Math_max :: "jsnum list \<Rightarrow> jsnum" where
  "Math_max xs = foldl jmax2 NInf xs"

definition of_length :: "'a list \<Rightarrow> jsnum" where
  "of_length xs = Fin (real (length xs))"

subsection \<open>POST /api/stats (server.js)\<close>

record stats =
  count :: nat
  stat_sum :: jsnum
  mean :: jsnum
  median :: jsnum
  stat_min :: jsnum
  stat_max :: jsnum
  stat_range :: jsnum
  variance :: jsnum
  standardDeviation :: jsnum

definition api_stats :: "jsval \<Rightarrow> error + stats" where
  "api_stats values =
     (case numeric_values values of
        Inl e \<Rightarrow> Inl e
      | Inr numericValues \<Rightarrow>
          let sortedValues = sort_js numericValues;
              n = length numericValues;
              sum = foldl jadd (Fin 0) numericValues;
              mean = jdiv sum (Fin (real n));
              median = (if n mod 2 = 0
                        then jdiv (jadd (num_at sortedValues (n div 2 - 1))
                                        (num_at sortedValues (n div 2))) (Fin 2)
                        else num_at sortedValues (n div 2));
              variance = jdiv (foldl (\<lambda>acc val. jadd acc (jpow (jsub val mean) 2))
                                 (Fin 0) numericValues) (Fin (real n));
              standardDeviation = jsqrt variance
          in Inr \<lparr> count = n, stat_sum = sum, mean = mean, median = median,
                   stat_min = Math_min numericValues, stat_max = Math_max numericValues,
                   stat_range = jsub (Math_max numericValues) (Math_min numericValues),
                   variance = variance, standardDeviation = standardDeviation \<rparr>)"

subsection \<open>Quartiles and outliers (route/ml.js)\<close>

record quartiles =
  q1 :: "jsnum option"
  q2 :: "jsnum option"
  q3 :: "jsnum option"

definition calculateQuartiles :: "jsnum list \<Rightarrow> quartiles" where
  "calculateQuartiles sortedArray =
     (let n = of_length sortedArray;
          q1Index = jfloor (jmul n (Fin 0.25));
          q2Index = jfloor (jmul n (Fin 0.5));
          q3Index = jfloor (jmul n (Fin 0.75))
      in \<lparr> q1 = js_index sortedArray q1Index,
           q2 = js_index sortedArray q2Index,
           q3 = js_index sortedArray q3Index \<rparr>)"

definition detectOutliers :: "jsnum list \<Rightarrow> jsnum list" where
  "detectOutliers sortedArray =
     (let quartiles = calculateQuartiles sortedArray;
          iqr = jsub (to_number (q3 quartiles)) (to_number (q1 quartiles));
          lowerBound = jsub (to_number (q1 quartiles)) (jmul (Fin 1.5) iqr);
          upperBound = jadd (to_number (q3 quartiles)) (jmul (Fin 1.5) iqr)
      in filter (\<lambda>value. jlt value lowerBound \<or> jgt value upperBound) sortedArray)"

subsection \<open>The statistics package\<close>

text \<open>
  The machine-learning routes import \<open>mean\<close>, \<open>standardDeviation\<close>, \<open>variance\<close>,
  \<open>median\<close>, \<open>mode\<close>, \<open>min\<close> and \<open>max\<close> from the package simple-statistics, which is not
  part of the repository. The routes take the package as a parameter, a record of
  its functions, so that what is proved of them holds for every implementation.
\<close>

record statslib =
  lib_mean :: "jsnum list \<Rightarrow> jsnum"
  lib_standardDeviation :: "jsnum list \<Rightarrow> jsnum"
  lib_variance :: "jsnum list \<Rightarrow> jsnum"
  lib_median :: "jsnum list \<Rightarrow> jsnum"
  lib_mode :: "jsnum list \<Rightarrow> jsnum"
  lib_min :: "jsnum list \<Rightarrow> jsnum"
  lib_max :: "jsnum list \<Rightarrow> jsnum"

text \<open>
  The package as its documentation describes it, for evaluating the routes on a
  sample: the arithmetic mean, the population variance and its square root (0 for a
  single value), the middle of the sorted sample (the mean of the two middle values
  when the length is even), the least of the most frequent values, and the extremes
  found by a scan with \<open><\<close> and \<open>>\<close>.
\<close>

definition ss_mean :: "jsnum list \<Rightarrow> jsnum" where
  "ss_mean xs = jdiv (foldl jadd (Fin 0) xs) (of_length xs)"

definition ss_variance :: "jsnum list \<Rightarrow> jsnum" where
  "ss_variance xs =
     jdiv (foldl (\<lambda>acc x. jadd acc (jpow (jsub x (ss_mean xs)) 2)) (Fin 0) xs) (of_length xs)"

definition ss_standardDeviation :: "jsnum list \<Rightarrow> jsnum" where
  "ss_standardDeviation xs = (if length xs = 1 then Fin 0 else jsqrt (ss_variance xs))"

definition ss_median :: "jsnum list \<Rightarrow> jsnum" where
  "ss_median xs =
     (let sorted = sort_js xs; n = length xs in
      if n mod 2 = 0
      then jdiv (jadd (num_at sorted (n div 2 - 1)) (num_at sorted (n div 2))) (Fin 2)
      else num_at sorted (n div 2))"

definition ss_min :: "jsnum list \<Rightarrow> jsnum" where
  "ss_min xs = foldl (\<lambda>value x. if jlt x value then x else value) (num_at xs 0) (tl xs)"

definition ss_max :: "jsnum list \<Rightarrow> jsnum" where
  "ss_max xs = foldl (\<lambda>value x. if jgt x value then x else value) (num_at xs 0) (tl xs)"

definition ss_mode :: "jsnum list \<Rightarrow> jsnum" where
  "ss_mode xs =
     (let sorted = sort_js xs;
          occurrences = (\<lambda>v. length (filter (\<lambda>x. x = v) sorted));
          most = foldl max 0 (map occurrences sorted)
      in num_at (filter (\<lambda>v. occurrences v = most) sorted) 0)"

definition simple_statistics :: statslib where
  "simple_statistics =
     \<lparr> lib_mean = ss_mean, lib_standardDeviation = ss_standardDeviation,
       lib_variance = ss_variance, lib_median = ss_median, lib_mode = ss_mode,
       lib_min = ss_min, lib_max = ss_max \<rparr>"

subsection \<open>POST /stats/descriptive (route/ml.js)\<close>

definition calculateSkewness :: "jsnum list \<Rightarrow> jsnum \<Rightarrow> jsnum \<Rightarrow> jsnum" where
  "calculateSkewness data meanVal stdVal =
     (let n = of_length data;
          total = foldl (\<lambda>acc value. jadd acc (jpow (jdiv (jsub value meanVal) stdVal) 3))
                    (Fin 0) data
      in jmul (jdiv n (jmul (jsub n (Fin 1)) (jsub n (Fin 2)))) total)"

definition calculateKurtosis :: "jsnum list \<Rightarrow> jsnum \<Rightarrow> jsnum \<Rightarrow> jsnum" where
  "calculateKurtosis data meanVal stdVal =
     (let n = of_length data;
          total = foldl (\<lambda>acc value. jadd acc (jpow (jdiv (jsub value meanVal) stdVal) 4))
                    (Fin 0) data
      in jsub (jmul (jdiv (jmul n (jadd n (Fin 1)))
                          (jmul (jmul (jsub n (Fin 1)) (jsub n (Fin 2))) (jsub n (Fin 3))))
                    total)
              (jdiv (jmul (Fin 3) (jpow (jsub n (Fin 1)) 2))
                    (jmul (jsub n (Fin 2)) (jsub n (Fin 3)))))"

record descriptive =
  d_count :: nat
  d_mean :: jsnum
  d_median :: jsnum
  d_mode :: jsnum
  d_min :: jsnum
  d_max :: jsnum
  d_range :: jsnum
  d_variance :: jsnum
  d_standardDeviation :: jsnum
  d_quartiles :: quartiles
  d_outliers :: "jsnum list"
  skewness :: jsnum
  kurtosis :: jsnum

definition stats_descriptive :: "statslib \<Rightarrow> jsval \<Rightarrow> error + descriptive" where
  "stats_descriptive lib values =
     (case numeric_values values of
        Inl e \<Rightarrow> Inl e
      | Inr numericValues \<Rightarrow>
          let sortedValues = sort_js numericValues in
          Inr \<lparr> d_count = length numericValues,
                d_mean = lib_mean lib numericValues,
                d_median = lib_median lib numericValues,
                d_mode = lib_mode lib numericValues,
                d_min = lib_min lib numericValues,
                d_max = lib_max lib numericValues,
                d_range = jsub (lib_max lib numericValues) (lib_min lib numericValues),
                d_variance = lib_variance lib numericValues,
                d_standardDeviation = lib_standardDeviation lib numericValues,
                d_quartiles = calculateQuartiles sortedValues,
                d_outliers = detectOutliers sortedValues,
                skewness = calculateSkewness numericValues (lib_mean lib numericValues)
                             (lib_standardDeviation lib numericValues),
                kurtosis = calculateKurtosis numericValues (lib_mean lib numericValues)
                             (lib_standardDeviation lib numericValues) \<rparr>)"

subsection \<open>POST /normalize (route/ml.js)\<close>

datatype parameters =
    ZScoreParameters jsnum jsnum
  | MinMaxParameters jsnum jsnum jsnum
  | RobustParameters jsnum "jsnum option" "jsnum option" jsnum

record summary =
  s_mean :: jsnum
  s_std :: jsnum
  s_min :: jsnum
  s_max :: jsnum

record normalized =
  normalized_data :: "jsnum list"
  used_method :: string
  used_parameters :: parameters
  original_summary :: summary
  normalized_summary :: summary

definition summarize :: "statslib \<Rightarrow> jsnum list \<Rightarrow> summary" where
  "summarize lib xs =
     \<lparr> s_mean = lib_mean lib xs, s_std = lib_standardDeviation lib xs,
       s_min = lib_min lib xs, s_max = lib_max lib xs \<rparr>"

text \<open>
  The three branches of the \<open>switch\<close>: each returns the normalized data and the
  parameters. None of them tests its divisor.
\<close>

definition normalize_zscore :: "statslib \<Rightarrow> jsnum list \<Rightarrow> jsnum list \<times> parameters" where
  "normalize_zscore lib numericData =
     (let meanVal = lib_mean lib numericData;
          stdVal = lib_standardDeviation lib numericData
      in (map (\<lambda>x. jdiv (jsub x meanVal) stdVal) numericData,
          ZScoreParameters meanVal stdVal))"

definition normalize_minmax :: "statslib \<Rightarrow> jsnum list \<Rightarrow> jsnum list \<times> parameters" where
  "normalize_minmax lib numericData =
     (let minVal = lib_min lib numericData;
          maxVal = lib_max lib numericData;
          range = jsub maxVal minVal
      in (map (\<lambda>x. jdiv (jsub x minVal) range) numericData,
          MinMaxParameters minVal maxVal range))"

definition normalize_robust :: "statslib \<Rightarrow> jsnum list \<Rightarrow> jsnum list \<times> parameters" where
  "normalize_robust lib numericData =
     (let medianVal = lib_median lib numericData;
          sortedData = sort_js numericData;
          q1 = q1 (calculateQuartiles sortedData);
          q3 = q3 (calculateQuartiles sortedData);
          iqr = jsub (to_number q3) (to_number q1)
      in (map (\<lambda>x. jdiv (jsub x medianVal) iqr) numericData,
          RobustParameters medianVal q1 q3 iqr))"

text \<open>
  The handler. \<open>method\<close> defaults to \<open>'zscore'\<close> when the body has none; any value
  other than the three names reaches the \<open>default\<close> branch.
\<close>

definition normalize_sample :: "statslib \<Rightarrow> jsval \<Rightarrow> jsval \<Rightarrow> error + normalized" where
  "normalize_sample lib data method_field =
     (case numeric_values data of
        Inl e \<Rightarrow> Inl e
      | Inr numericData \<Rightarrow>
          let method = (case method_field of JUndefined \<Rightarrow> JStr ''zscore'' | m \<Rightarrow> m);
              finish = (\<lambda>name (normalizedData, parameters).
                 Inr \<lparr> normalized_data = normalizedData, used_method = name,
                       used_parameters = parameters,
                       original_summary = summarize lib numericData,
                       normalized_summary = summarize lib normalizedData \<rparr>)
          in if method = JStr ''zscore'' then finish ''zscore'' (normalize_zscore lib numericData)
             else if method = JStr ''minmax'' then finish ''minmax'' (normalize_minmax lib numericData)
             else if method = JStr ''robust'' then finish ''robust'' (normalize_robust lib numericData)
             else Inl InvalidMethod)"

text \<open>
  The centre and the scale of a method in the words of the specification: z-score
  is \<open>(x - mean) / std\<close>, min-max is \<open>(x - min) / (max - min)\<close>, robust is
  \<open>(x - median) / IQR\<close> with the IQR of the index-based quartiles.
\<close>

definition method_centre :: "statslib \<Rightarrow> string \<Rightarrow> jsnum list \<Rightarrow> jsnum" where
  "method_centre lib method xs =
     (if method = ''zscore'' then lib_mean lib xs
      else if method = ''minmax'' then lib_min lib xs
      else lib_median lib xs)"

definition method_scale :: "statslib \<Rightarrow> string \<Rightarrow> jsnum list \<Rightarrow> jsnum" where
  "method_scale lib method xs =
     (if method = ''zscore'' then lib_standardDeviation lib xs
      else if method = ''minmax'' then jsub (lib_max lib xs) (lib_min lib xs)
      else jsub (to_number (q3 (calculateQuartiles (sort_js xs))))
                (to_number (q1 (calculateQuartiles (sort_js xs)))))"

subsection \<open>POST /correlation (route/ml.js)\<close>

text \<open>
  The functions of the package throw an \<open>Error\<close> when they are given an empty array
  (\<open>mean requires at least one data point\<close>); on a non-empty array of numbers they
  return a number. The handler of \<open>/correlation\<close> is the one that can call the package
  on an empty array: the error then reaches the \<open>catch\<close> clause of the handler, which
  answers with the internal error.
\<close>

definition package_call :: "(jsnum list \<Rightarrow> jsnum) \<Rightarrow> jsnum list \<Rightarrow> error + jsnum" where
  "package_call f xs = (if xs = [] then Inl InternalError else Inr (f xs))"

definition calculateCorrelation :: "statslib \<Rightarrow> jsnum list \<Rightarrow> jsnum list \<Rightarrow> error + jsnum" where
  "calculateCorrelation lib x y =
     (case package_call (lib_mean lib) x of
        Inl thrown \<Rightarrow> Inl thrown
      | Inr meanX \<Rightarrow>
          (case package_call (lib_mean lib) y of
             Inl thrown \<Rightarrow> Inl thrown
           | Inr meanY \<Rightarrow>
               let numerator = foldl (\<lambda>acc i. jadd acc (jmul (jsub (x ! i) meanX)
                                                              (jsub (num_at y i) meanY)))
                                 (Fin 0) [0..<length x];
                   denomX = foldl (\<lambda>acc xi. jadd acc (jpow (jsub xi meanX) 2)) (Fin 0) x;
                   denomY = foldl (\<lambda>acc yi. jadd acc (jpow (jsub yi meanY) 2)) (Fin 0) y
               in Inr (jdiv numerator (jsqrt (jmul denomX denomY)))))"

text \<open>The stand-in for the cumulative distribution function of Student's t.\<close>

definition tDistribution :: "jsnum \<Rightarrow> jsnum \<Rightarrow> jsnum" where
  "tDistribution t df = Fin 0.5"

text \<open>
  The body field \<open>datasets\<close> is an object that maps a variable name to its array of
  numbers: the list of its entries in the order of \<open>Object.keys\<close>, whose names are
  distinct. \<open>None\<close> is a field that is missing or is not an object. The matrices
  that the handler builds are objects of objects. An object of the response is the
  map of its own properties, which are what the response serialises: a matrix is a
  map from a name to a row, a map from a name to a number.
\<close>

type_synonym datasets = "(string \<times> jsnum list) list"

type_synonym matrix = "string \<rightharpoonup> (string \<rightharpoonup> jsnum)"

definition dataset :: "datasets \<Rightarrow> string \<Rightarrow> jsnum list" where
  "dataset ds v = (case map_of ds v of Some xs \<Rightarrow> xs | None \<Rightarrow> [])"

text \<open>
  The assignment \<open>obj[key] = value\<close> on an object created by \<open>{}\<close> adds or replaces the
  own property \<open>key\<close>, for every key but \<open>__proto__\<close>: that one is the accessor
  inherited from \<open>Object.prototype\<close>, whose setter replaces the prototype when the
  value is an object and does nothing when it is a number. In both cases the object
  gets no own property.
\<close>

definition set_property :: "(string \<rightharpoonup> 'a) \<Rightarrow> string \<Rightarrow> 'a \<Rightarrow> (string \<rightharpoonup> 'a)" where
  "set_property obj key v = (if key = ''__proto__'' then obj else obj(key \<mapsto> v))"

text \<open>
  A \<open>for\<close> loop over the indices whose body may throw: the first error ends the
  loop and is the result.
\<close>

fun for_each :: "(nat \<Rightarrow> 's \<Rightarrow> error + 's) \<Rightarrow> nat list \<Rightarrow> 's \<Rightarrow> error + 's" where
  "for_each body [] s = Inr s"
| "for_each body (i # rest) s =
     (case body i s of Inl thrown \<Rightarrow> Inl thrown | Inr s' \<Rightarrow> for_each body rest s')"

text \<open>
  The body of the inner loop, at the indices \<open>i\<close> and \<open>j\<close>: it stores one entry in
  the row of the correlation matrix and one in the row of the p-values.
\<close>

definition correlation_entry ::
  "statslib \<Rightarrow> datasets \<Rightarrow> string list \<Rightarrow> nat \<Rightarrow> nat
     \<Rightarrow> (string \<rightharpoonup> jsnum) \<times> (string \<rightharpoonup> jsnum)
     \<Rightarrow> error + (string \<rightharpoonup> jsnum) \<times> (string \<rightharpoonup> jsnum)" where
  "correlation_entry lib ds variables i j rows =
     (let var1 = variables ! i; var2 = variables ! j in
      if i = j
      then Inr (set_property (fst rows) var2 (Fin 1), set_property (snd rows) var2 (Fin 0))
      else
        case calculateCorrelation lib (dataset ds var1) (dataset ds var2) of
          Inl thrown \<Rightarrow> Inl thrown
        | Inr corr \<Rightarrow>
            let n = of_length (dataset ds var1);
                t = jmul corr (jsqrt (jdiv (jsub n (Fin 2)) (jsub (Fin 1) (jmul corr corr))))
            in Inr (set_property (fst rows) var2 corr,
                    set_property (snd rows) var2
                      (jmul (Fin 2) (jsub (Fin 1) (tDistribution (jabs t) (jsub n (Fin 2)))))))"

text \<open>The body of the outer loop: two fresh rows, filled by the inner loop.\<close>

definition correlation_rows ::
  "statslib \<Rightarrow> datasets \<Rightarrow> string list \<Rightarrow> nat \<Rightarrow> matrix \<times> matrix \<Rightarrow> error + matrix \<times> matrix" where
  "correlation_rows lib ds variables i matrices =
     (let var1 = variables ! i in
      case for_each (correlation_entry lib ds variables i) [0..<length variables]
             (Map.empty, Map.empty) of
        Inl thrown \<Rightarrow> Inl thrown
      | Inr rows \<Rightarrow>
          Inr (set_property (fst matrices) var1 (fst rows),
               set_property (snd matrices) var1 (snd rows)))"

record correlations =
  correlation_matrix :: matrix
  p_values :: matrix
  variables :: "string list"
  sample_size :: nat

text \<open>
  The handler. An error thrown inside the loops is caught and answered with the
  internal error. The response field \<open>interpretation\<close>, a text for each pair, is left
  out, as are \<open>method\<close> (an echo of the request) and \<open>timestamp\<close>.
\<close>

definition correlation :: "statslib \<Rightarrow> datasets option \<Rightarrow> error + correlations" where
  "correlation lib body =
     (case body of
        None \<Rightarrow> Inl DatasetsRequired
      | Some ds \<Rightarrow>
          let variables = map fst ds in
          if length variables < 2 then Inl TwoVariablesRequired
          else
            let lengths = map (\<lambda>v. length (dataset ds v)) variables in
            if \<not> list_all (\<lambda>l. l = lengths ! 0) lengths then Inl UnequalLengths
            else
              case for_each (correlation_rows lib ds variables) [0..<length variables]
                     (Map.empty, Map.empty) of
                Inl thrown \<Rightarrow> Inl InternalError
              | Inr matrices \<Rightarrow>
                  Inr \<lparr> correlation_matrix = fst matrices, p_values = snd matrices,
                         variables = variables, sample_size = lengths ! 0 \<rparr>)"

text \<open>Reading \<open>m[v][w]\<close> in a matrix of the response.\<close>

definition entry :: "matrix \<Rightarrow> string \<Rightarrow> string \<Rightarrow> jsnum option" where
  "entry m v w = (case m v of None \<Rightarrow> None | Some row \<Rightarrow> row w)"

text \<open>
  The loops without the errors, for arrays that are not empty: the two values that
  the inner loop stores at the indices \<open>i\<close> and \<open>j\<close> (the correlation and the
  p-value), and the bodies of the two loops as functions of the rows.
\<close>

definition entry_values :: "statslib \<Rightarrow> datasets \<Rightarrow> string list \<Rightarrow> nat \<Rightarrow> nat \<Rightarrow> jsnum \<times> jsnum" where
  "entry_values lib ds vars i j =
     (if i = j then (Fin 1, Fin 0)
      else (projr (calculateCorrelation lib (dataset ds (vars ! i)) (dataset ds (vars ! j))),
            Fin 1))"

definition store_entry ::
  "statslib \<Rightarrow> datasets \<Rightarrow> string list \<Rightarrow> nat \<Rightarrow> nat
     \<Rightarrow> (string \<rightharpoonup> jsnum) \<times> (string \<rightharpoonup> jsnum) \<Rightarrow> (string \<rightharpoonup> jsnum) \<times> (string \<rightharpoonup> jsnum)" where
  "store_entry lib ds vars i j rows =
     (set_property (fst rows) (vars ! j) (fst (entry_values lib ds vars i j)),
      set_property (snd rows) (vars ! j) (snd (entry_values lib ds vars i j)))"

definition store_row ::
  "statslib \<Rightarrow> datasets \<Rightarrow> string list \<Rightarrow> nat \<Rightarrow> matrix \<times> matrix \<Rightarrow> matrix \<times> matrix" where
  "store_row lib ds vars i ms =
     (set_property (fst ms) (vars ! i)
        (fst (fold (store_entry lib ds vars i) [0..<length vars] (Map.empty, Map.empty))),
      set_property (snd ms) (vars ! i)
        (snd (fold (store_entry lib ds vars i) [0..<length vars] (Map.empty, Map.empty))))"

text \<open>
  A valid request: at least two variables, distinct names (the keys of an object),
  and arrays of one length.
\<close>

definition valid_datasets :: "datasets \<Rightarrow> bool" where
  "valid_datasets ds \<longleftrightarrow>
     2 \<le> length ds \<and> distinct (map fst ds)
     \<and> (\<forall>p\<in>set ds. length (snd p) = length (snd (hd ds)))"

section \<open>Properties of rounding\<close>

lemma round_half_even_of_int [simp]: "round_half_even (of_int z) = z"
  by (simp add: round_half_even_def)

lemma round_half_even_ge: "of_int n \<le> r \<Longrightarrow> n \<le> round_half_even r"
proof -
  assume "of_int n \<le> r"
  then have "n \<le> \<lfloor>r\<rfloor>" by (simp add: le_floor_iff)
  then show ?thesis by (auto simp: round_half_even_def Let_def)
qed

lemma pow2_powr: "2 powr (real_of_int k + 1) = 2 powi (k + 1)" "2 powr (real_of_int k) = 2 powi k"
  using powr_real_of_int' [of 2 "k + 1"] powr_real_of_int' [of 2 k] by simp_all

lemma round_half_even_le: "r \<le> of_int n \<Longrightarrow> round_half_even r \<le> n"
proof -
  assume a: "r \<le> of_int n"
  show ?thesis
  proof (cases "r = of_int n")
    case True
    then show ?thesis by simp
  next
    case False
    with a have "r < of_int n" by simp
    then have "\<lfloor>r\<rfloor> < n" by (simp add: floor_less_iff)
    then show ?thesis by (auto simp: round_half_even_def Let_def)
  qed
qed

lemma floor_log2_bounds:
  assumes "0 < x"
  shows "2 powi \<lfloor>log 2 x\<rfloor> \<le> x" and "x < 2 powi (\<lfloor>log 2 x\<rfloor> + 1)"
proof -
  have "2 powr (of_int \<lfloor>log 2 x\<rfloor>) \<le> x \<and> x < 2 powr (of_int (\<lfloor>log 2 x\<rfloor> + 1))"
    using floor_log_eq_powr_iff [of x 2 "\<lfloor>log 2 x\<rfloor>"] assms by simp
  then show "2 powi \<lfloor>log 2 x\<rfloor> \<le> x" and "x < 2 powi (\<lfloor>log 2 x\<rfloor> + 1)"
    by (simp_all add: pow2_powr)
qed

lemma floor_log2_eq:
  assumes "2 powi k \<le> x" and "x < 2 powi (k + 1)"
  shows "\<lfloor>log 2 x\<rfloor> = k"
proof -
  have "0 < (2::real) powi k" by simp
  with assms(1) have pos: "0 < x" by linarith
  show ?thesis
    using floor_log_eq_powr_iff [of x 2 k] pos assms
    by (simp add: pow2_powr)
qed

lemma pow2_less_cancel: "(2::real) powi a < 2 powi b \<Longrightarrow> a < b"
  by (metis linorder_not_less nle_le one_less_numeral_iff power_int_strict_increasing semiring_norm(76) order_less_imp_not_less)

lemma ulp_exponent_le:
  fixes m :: int
  assumes "m \<noteq> 0" and "\<bar>m\<bar> < 2 ^ 53" and "- 1074 \<le> e"
  shows "ulp_exponent (of_int m * 2 powi e) \<le> e"
proof -
  let ?x = "of_int m * (2::real) powi e"
  have pos: "0 < \<bar>?x\<bar>" using assms(1) by simp
  have "\<bar>?x\<bar> = of_int \<bar>m\<bar> * 2 powi e" by (simp add: abs_mult)
  also have "\<dots> < 2 ^ 53 * 2 powi e"
  proof -
    have "real_of_int \<bar>m\<bar> < real_of_int (2 ^ 53)"
      using assms(2) by (simp only: of_int_less_iff)
    then show ?thesis by simp
  qed
  also have "\<dots> = 2 powi (53 + e)" by (simp add: power_int_add)
  finally have up: "\<bar>?x\<bar> < 2 powi (53 + e)" .
  from floor_log2_bounds(1) [OF pos] up have "2 powi \<lfloor>log 2 \<bar>?x\<bar>\<rfloor> < (2::real) powi (53 + e)"
    by linarith
  then have "\<lfloor>log 2 \<bar>?x\<bar>\<rfloor> < 53 + e" by (rule pow2_less_cancel)
  with assms(3) show ?thesis by (simp add: ulp_exponent_def)
qed

lemma round64_exact:
  fixes m :: int
  assumes "\<bar>m\<bar> < 2 ^ 53" and "- 1074 \<le> e" and "e \<le> 971"
  shows "round64 (of_int m * 2 powi e) = Fin (of_int m * 2 powi e)"
proof (cases "m = 0")
  case True
  then show ?thesis by (simp add: round64_def)
next
  case False
  let ?x = "of_int m * (2::real) powi e"
  define k where "k = ulp_exponent ?x"
  have ke: "k \<le> e" unfolding k_def using False assms(1,2) by (rule ulp_exponent_le)
  have split: "(2::real) powi e = 2 powi (e - k) * 2 powi k"
    by (simp flip: power_int_add)
  have p: "(2::real) powi (e - k) = 2 ^ nat (e - k)"
    using ke by (simp add: power_int_def)
  have quot: "?x / 2 powi k = of_int (m * 2 ^ nat (e - k))"
    by (simp add: split p)
  have restore: "of_int (m * 2 ^ nat (e - k)) * (2::real) powi k = ?x"
    by (simp add: split p)
  have "\<bar>?x\<bar> = of_int \<bar>m\<bar> * 2 powi e" by (simp add: abs_mult)
  also have "\<dots> < 2 ^ 53 * 2 powi e"
  proof -
    have "real_of_int \<bar>m\<bar> < real_of_int (2 ^ 53)"
      using assms(1) by (simp only: of_int_less_iff)
    then show ?thesis by simp
  qed
  also have "\<dots> = 2 powi (53 + e)" by (simp add: power_int_add)
  also have "\<dots> \<le> 2 powi 1024"
    using assms(3) by (intro power_int_increasing) simp_all
  finally have small: "\<not> 2 ^ 1024 \<le> \<bar>?x\<bar>" by simp
  have nz: "?x \<noteq> 0" using False by simp
  show ?thesis
    unfolding round64_def Let_def k_def [symmetric] quot round_half_even_of_int restore
    using nz small by simp
qed

lemma ulp_exponent_ge: "- 1074 \<le> ulp_exponent x"
  by (simp add: ulp_exponent_def)

lemma round64_on_grid:
  assumes "round64 x = Fin y"
  shows "on_grid y"
proof (cases "x = 0")
  case True
  with assms have "y = 0" by (simp add: round64_def)
  then show ?thesis by (auto simp: on_grid_def intro: exI [of _ 0])
next
  case False
  define k where "k = ulp_exponent x"
  define r where "r = round_half_even (x / 2 powi k)"
  from assms False have y: "y = of_int r * 2 powi k"
    by (auto simp: round64_def Let_def k_def r_def split: if_splits)
  have k: "- 1074 \<le> k" unfolding k_def by (rule ulp_exponent_ge)
  define g where "g = (2::real) powi (- 1074)"
  have "(2::real) powi (k + 1074) * g = 2 powi (k + 1074 + (- 1074))"
    unfolding g_def by (rule power_int_add [symmetric]) simp
  then have "(2::real) powi k = 2 powi (k + 1074) * g" by simp
  moreover have "(2::real) powi (k + 1074) = 2 ^ nat (k + 1074)"
    using k by (simp add: power_int_def)
  ultimately have "y = of_int (r * 2 ^ nat (k + 1074)) * g"
    using y by simp
  then have "y = of_int (r * 2 ^ nat (k + 1074)) * 2 powi (- 1074)"
    unfolding g_def .
  then show ?thesis unfolding on_grid_def by blast
qed

lemma ulp_le_abs:
  assumes "on_grid d" and "d \<noteq> 0"
  shows "2 powi ulp_exponent d \<le> \<bar>d\<bar>"
proof -
  from assms(1) obtain z :: int where z: "d = of_int z * 2 powi (- 1074)"
    by (auto simp: on_grid_def)
  define g where "g = (2::real) powi (- 1074)"
  have g: "0 < g" by (simp add: g_def)
  from z assms(2) have "z \<noteq> 0" by auto
  then have "1 \<le> \<bar>z\<bar>" by simp
  then have "(1::real) \<le> of_int \<bar>z\<bar>" by (simp only: of_int_1_le_iff)
  then have "1 * g \<le> of_int \<bar>z\<bar> * g" using g by (intro mult_right_mono) simp_all
  also have "\<dots> = \<bar>d\<bar>" using g by (simp add: z g_def abs_mult)
  finally have low: "g \<le> \<bar>d\<bar>" by simp
  have pos: "0 < \<bar>d\<bar>" using assms(2) by simp
  have "(2::real) powi (\<lfloor>log 2 \<bar>d\<bar>\<rfloor> - 52) \<le> 2 powi \<lfloor>log 2 \<bar>d\<bar>\<rfloor>"
    by (intro power_int_increasing) simp_all
  with floor_log2_bounds(1) [OF pos] have high: "(2::real) powi (\<lfloor>log 2 \<bar>d\<bar>\<rfloor> - 52) \<le> \<bar>d\<bar>"
    by linarith
  show ?thesis
    using low high unfolding ulp_exponent_def g_def max_def by (simp split: if_splits)
qed

lemma round64_positive:
  assumes "on_grid d" and "0 < d"
  shows "round64 d = PInf \<or> (\<exists>y. round64 d = Fin y \<and> 0 < y)"
proof -
  define q where "q = (2::real) powi ulp_exponent d"
  have q: "0 < q" by (simp add: q_def)
  from ulp_le_abs [OF assms(1)] assms(2) have "q \<le> d" by (simp add: q_def)
  with q have "of_int 1 \<le> d / q" by (simp add: field_simps)
  then have "1 \<le> round_half_even (d / q)" by (rule round_half_even_ge)
  then have "(1::real) \<le> of_int (round_half_even (d / q))" by (simp only: of_int_1_le_iff)
  with q have "0 < of_int (round_half_even (d / q)) * q" by simp
  with assms(2) show ?thesis
    by (simp add: round64_def Let_def q_def)
qed

lemma round64_nonpositive:
  assumes "d \<le> 0"
  shows "round64 d = NInf \<or> (\<exists>y. round64 d = Fin y \<and> y \<le> 0)"
proof (cases "d = 0")
  case True
  then show ?thesis by (simp add: round64_def)
next
  case False
  define q where "q = (2::real) powi ulp_exponent d"
  have q: "0 < q" by (simp add: q_def)
  from assms q have "d / q \<le> of_int 0" by (simp add: field_simps)
  then have "round_half_even (d / q) \<le> 0" by (rule round_half_even_le)
  then have "real_of_int (round_half_even (d / q)) \<le> 0" by simp
  with q have "of_int (round_half_even (d / q)) * q \<le> 0" by (simp add: mult_le_0_iff)
  with assms False show ?thesis
    by (simp add: round64_def Let_def q_def)
qed

lemma on_grid_diff: "on_grid u \<Longrightarrow> on_grid v \<Longrightarrow> on_grid (u - v)"
proof -
  assume "on_grid u" "on_grid v"
  then obtain a b :: int where "u = of_int a * 2 powi (- 1074)" "v = of_int b * 2 powi (- 1074)"
    by (auto simp: on_grid_def)
  then have "u - v = of_int (a - b) * 2 powi (- 1074)"
    by (simp only: of_int_diff left_diff_distrib)
  then show ?thesis unfolding on_grid_def by blast
qed

lemma round64_numeral_int:
  fixes m :: int
  assumes "\<bar>m\<bar> < 2 ^ 53"
  shows "round64 (of_int m) = Fin (of_int m)"
  using round64_exact [OF assms, of 0] by simp

lemma round64_pow2_rounding: "round64 (2 ^ 120 - 4) = Fin (2 ^ 120)"
proof -
  let ?x = "(2::real) ^ 120 - 4"
  have l: "\<lfloor>log 2 \<bar>?x\<bar>\<rfloor> = 119"
    using floor_log2_eq [of 119 "\<bar>?x\<bar>"] by simp
  have k: "ulp_exponent ?x = 67" by (simp only: ulp_exponent_def l)
  have fl: "\<lfloor>?x / 2 ^ 67\<rfloor> = 2 ^ 53 - 1"
    by (simp add: floor_eq_iff)
  have r: "round_half_even (?x / 2 ^ 67) = 2 ^ 53"
    unfolding round_half_even_def Let_def fl by simp
  have q: "(2::real) powi 67 = 2 ^ 67" by simp
  show ?thesis
    unfolding round64_def Let_def k q r by simp
qed

lemma round64_nat_scaled:
  fixes m :: int
  assumes "\<bar>m\<bar> < 2 ^ 53" and "j \<le> 971"
  shows "round64 (of_int m * 2 ^ j) = Fin (of_int m * 2 ^ j)"
  using round64_exact [OF assms(1), of "int j"] assms(2) by simp

lemma round64_nat_divided:
  fixes m :: int
  assumes "\<bar>m\<bar> < 2 ^ 53" and "j \<le> 1074"
  shows "round64 (of_int m / 2 ^ j) = Fin (of_int m / 2 ^ j)"
  using round64_exact [OF assms(1), of "- int j"] assms(2)
  by (simp add: power_int_minus field_simps)

lemma round64_zero [simp]: "round64 0 = Fin 0"
  by (simp add: round64_def)

lemma round64_one [simp]: "round64 1 = Fin 1"
  using round64_numeral_int [of 1] by simp

lemma round64_numeral [simp]:
  "(numeral k :: int) < 9007199254740992 \<Longrightarrow> round64 (numeral k) = Fin (numeral k)"
  using round64_numeral_int [of "numeral k"] by simp

lemma round64_neg_numeral [simp]:
  "(numeral k :: int) < 9007199254740992 \<Longrightarrow> round64 (- numeral k) = Fin (- numeral k)"
  using round64_numeral_int [of "- numeral k"] by simp

lemma round64_halves [simp]:
  "round64 (1 / 2) = Fin (1 / 2)"
  "(numeral k :: int) < 9007199254740992 \<Longrightarrow> round64 (numeral k / 2) = Fin (numeral k / 2)"
  "(numeral k :: int) < 9007199254740992 \<Longrightarrow> round64 (numeral k / 4) = Fin (numeral k / 4)"
  using round64_nat_divided [of 1 1] round64_nat_divided [of "numeral k" 1]
    round64_nat_divided [of "numeral k" 2]
  by simp_all

lemma round64_minus_one [simp]: "round64 (- 1) = Fin (- 1)"
  using round64_numeral_int [of "- 1"] by simp

lemma round64_of_nat:
  assumes "n < 2 ^ 53"
  shows "round64 (real n) = Fin (real n)"
proof -
  from assms have "int n < 2 ^ 53"
    by (metis of_nat_less_iff of_nat_numeral of_nat_power)
  then show ?thesis using round64_numeral_int [of "int n"] by simp
qed

text \<open>The doubles that the literals \<open>1e-10\<close> and \<open>1e-6\<close> denote.\<close>

lemma tol10_value: "tol10 = Fin (7737125245533627 / 2 ^ 86)"
proof -
  let ?x = "1 / (10::real) ^ 10"
  have l: "\<lfloor>log 2 \<bar>?x\<bar>\<rfloor> = - 34"
    using floor_log2_eq [of "- 34" "\<bar>?x\<bar>"] by simp
  have k: "ulp_exponent ?x = - 86" by (simp only: ulp_exponent_def l)
  have q: "(2::real) powi (- 86) = 1 / 2 ^ 86" by (simp add: power_int_minus field_simps)
  have fl: "\<lfloor>?x / (1 / 2 ^ 86)\<rfloor> = 7737125245533626"
    by (simp add: floor_eq_iff)
  have r: "round_half_even (?x / (1 / 2 ^ 86)) = 7737125245533627"
    unfolding round_half_even_def Let_def fl by simp
  show ?thesis
    unfolding tol10_def round64_def Let_def k q r by simp
qed

lemma tol6_value: "tol6 = Fin (4722366482869645 / 2 ^ 72)"
proof -
  let ?x = "1 / (10::real) ^ 6"
  have l: "\<lfloor>log 2 \<bar>?x\<bar>\<rfloor> = - 20"
    using floor_log2_eq [of "- 20" "\<bar>?x\<bar>"] by simp
  have k: "ulp_exponent ?x = - 72" by (simp only: ulp_exponent_def l)
  have q: "(2::real) powi (- 72) = 1 / 2 ^ 72" by (simp add: power_int_minus field_simps)
  have fl: "\<lfloor>?x / (1 / 2 ^ 72)\<rfloor> = 4722366482869645"
    by (simp add: floor_eq_iff)
  have r: "round_half_even (?x / (1 / 2 ^ 72)) = 4722366482869645"
    unfolding round_half_even_def Let_def fl by simp
  show ?thesis
    unfolding tol6_def round64_def Let_def k q r by simp
qed

section \<open>Properties of the solvers\<close>

lemma strict_eq_zero: "strict_eq a (Fin 0) \<longleftrightarrow> a = Fin 0"
  by (cases a) (auto simp: strict_eq_def)



text \<open>
  Claim C5. With \<open>D = a1 b2 - a2 b1\<close>: when \<open>|D| < 1e-10\<close> the system solver fails with
  \<open>SingularSystem\<close> and returns no solution; otherwise it returns
  \<open>x = (c1 b2 - c2 b1) / D\<close> and \<open>y = (a1 c2 - a2 c1) / D\<close> together with \<open>D\<close>.
\<close>

theorem solveSystem2x2_spec:
  "(let D = jsub (jmul (eq_a e1) (eq_b e2)) (jmul (eq_a e2) (eq_b e1)) in
    (jlt (jabs D) tol10 \<longrightarrow> solveSystem2x2 (Some e1) (Some e2) = Inl SingularSystem)
    \<and> (\<not> jlt (jabs D) tol10 \<longrightarrow>
        (\<exists>r. solveSystem2x2 (Some e1) (Some e2) = Inr r
           \<and> sys_x r = jdiv (jsub (jmul (eq_c e1) (eq_b e2)) (jmul (eq_c e2) (eq_b e1))) D
           \<and> sys_y r = jdiv (jsub (jmul (eq_a e1) (eq_c e2)) (jmul (eq_a e2) (eq_c e1))) D
           \<and> determinant r = D)))"
  by (simp add: solveSystem2x2_def Let_def)

theorem solveSystem2x2_spec_witness:
  "solveSystem2x2 (Some \<lparr>eq_a = Fin 1, eq_b = Fin 2, eq_c = Fin 3\<rparr>)
                  (Some \<lparr>eq_a = Fin 2, eq_b = Fin 4, eq_c = Fin 6\<rparr>) = Inl SingularSystem
   \<and> solveSystem2x2 (Some \<lparr>eq_a = Fin 2, eq_b = Fin 3, eq_c = Fin 7\<rparr>)
                    (Some \<lparr>eq_a = Fin 1, eq_b = Fin (- 1), eq_c = Fin 1\<rparr>)
       = Inr \<lparr> sys_x = Fin 2, sys_y = Fin 1, determinant = Fin (- 5),
               verification_eq1 = Fin 7, verification_eq2 = Fin 1 \<rparr>"
proof -
  have singular: "solveSystem2x2 (Some \<lparr>eq_a = Fin 1, eq_b = Fin 2, eq_c = Fin 3\<rparr>)
                  (Some \<lparr>eq_a = Fin 2, eq_b = Fin 4, eq_c = Fin 6\<rparr>) = Inl SingularSystem"
    using solveSystem2x2_spec [of "\<lparr>eq_a = Fin 1, eq_b = Fin 2, eq_c = Fin 3\<rparr>"
        "\<lparr>eq_a = Fin 2, eq_b = Fin 4, eq_c = Fin 6\<rparr>"]
    by (simp add: jsub_def tol10_value)
  have regular: "\<exists>r. solveSystem2x2 (Some \<lparr>eq_a = Fin 2, eq_b = Fin 3, eq_c = Fin 7\<rparr>)
                    (Some \<lparr>eq_a = Fin 1, eq_b = Fin (- 1), eq_c = Fin 1\<rparr>) = Inr r
                  \<and> sys_x r = Fin 2 \<and> sys_y r = Fin 1 \<and> determinant r = Fin (- 5)"
    using solveSystem2x2_spec [of "\<lparr>eq_a = Fin 2, eq_b = Fin 3, eq_c = Fin 7\<rparr>"
        "\<lparr>eq_a = Fin 1, eq_b = Fin (- 1), eq_c = Fin 1\<rparr>"]
    by (simp add: jsub_def tol10_value)
  from singular regular show ?thesis
    by (simp add: solveSystem2x2_def jsub_def tol10_value Let_def)
qed

section \<open>Properties of the quadratic solver\<close>

lemma on_grid_zero: "on_grid 0"
  unfolding on_grid_def by (rule exI [of _ 0]) simp

lemma jdiv_on_grid:
  assumes "jdiv p q = Fin y"
  shows "on_grid y"
proof (cases p)
  case (Fin u)
  show ?thesis
  proof (cases q)
    case (Fin v)
    with \<open>p = Fin u\<close> assms have "round64 (u / v) = Fin y"
      by (auto split: if_splits)
    then show ?thesis by (rule round64_on_grid)
  next
    case PInf
    with \<open>p = Fin u\<close> assms show ?thesis by (simp add: on_grid_zero [simplified])
  next
    case NInf
    with \<open>p = Fin u\<close> assms show ?thesis by (simp add: on_grid_zero [simplified])
  next
    case NaN
    with \<open>p = Fin u\<close> assms show ?thesis by simp
  qed
next
  case PInf
  with assms show ?thesis by (cases q) (auto split: if_splits)
next
  case NInf
  with assms show ?thesis by (cases q) (auto split: if_splits)
next
  case NaN
  with assms show ?thesis by simp
qed

lemma sort_js_pair:
  "sort_js [x1, x2] = (if jgt (jsub x1 x2) (Fin 0) then [x2, x1] else [x1, x2])"
  by (simp add: sort_js_def)

lemma swap_is_ascending:
  assumes "jgt (jsub x1 x2) (Fin 0)"
  shows "\<not> jlt x1 x2"
proof (cases x1)
  case (Fin u)
  show ?thesis
  proof (cases x2)
    case (Fin v)
    show ?thesis
    proof
      assume "jlt x1 x2"
      with \<open>x1 = Fin u\<close> \<open>x2 = Fin v\<close> have "u - v \<le> 0" by simp
      from round64_nonpositive [OF this] assms \<open>x1 = Fin u\<close> \<open>x2 = Fin v\<close>
      show False by (auto simp: jgt_def jsub_def)
    qed
  qed (use Fin assms in \<open>auto simp: jgt_def jsub_def\<close>)
qed (use assms in \<open>cases x2; auto simp: jgt_def jsub_def\<close>)+

lemma keep_is_ascending:
  assumes "\<not> jgt (jsub x1 x2) (Fin 0)" and "grid_value x1" and "grid_value x2"
  shows "\<not> jlt x2 x1"
proof (cases x1)
  case (Fin u)
  show ?thesis
  proof (cases x2)
    case (Fin v)
    show ?thesis
    proof
      assume "jlt x2 x1"
      with \<open>x1 = Fin u\<close> \<open>x2 = Fin v\<close> have "0 < u - v" by simp
      moreover from assms(2,3) \<open>x1 = Fin u\<close> \<open>x2 = Fin v\<close> have "on_grid (u - v)"
        by (simp add: grid_value_def on_grid_diff)
      ultimately have "round64 (u - v) = PInf \<or> (\<exists>y. round64 (u - v) = Fin y \<and> 0 < y)"
        by (intro round64_positive)
      with assms(1) \<open>x1 = Fin u\<close> \<open>x2 = Fin v\<close> show False
        by (auto simp: jgt_def jsub_def)
    qed
  qed (use Fin assms(1) in \<open>auto simp: jgt_def jsub_def\<close>)
qed (use assms(1) in \<open>cases x2; auto simp: jgt_def jsub_def\<close>)+

lemma verifySolutions_pair:
  "verifySolutions a b c [x, y] = [verified_root a b c x, verified_root a b c y]"
  by (simp add: verifySolutions_def verified_root_def clamp_residual_def Let_def)

lemma validateQuadratic_ok:
  "validateQuadratic isNumeric a b c = [] \<longleftrightarrow>
     isNumeric a \<and> isNumeric b \<and> isNumeric c \<and> a \<noteq> Fin 0"
  by (auto simp: validateQuadratic_def check_numeric_def check_nonzero_def strict_eq_zero)

text \<open>
  Claim C4, as the code has it. For \<open>a\<close> other than 0 and a computed discriminant
  \<open>b b - 4 a c\<close> above 0, \<open>solveQuadratic\<close> returns exactly two real roots, the values
  \<open>(-b + sqrt D) / (2 a)\<close> and \<open>(-b - sqrt D) / (2 a)\<close> that double arithmetic computes, in
  ascending order (the second is not below the first), and the verification array
  holds for each returned root its computed residual \<open>a x x + b x + c\<close>, reported as
  exactly 0 when its magnitude is below 1e-10, and the flag that the magnitude is
  below 1e-6. Nothing is said of the size of the residual.
\<close>

theorem solveQuadratic_two_real:
  assumes "a \<noteq> Fin 0" and "isNumeric a" and "isNumeric b" and "isNumeric c"
    and "jgt (jsub (jmul b b) (jmul (jmul (Fin 4) a) c)) (Fin 0)"
  shows "let D = jsub (jmul b b) (jmul (jmul (Fin 4) a) c);
             x1 = jdiv (jadd (jneg b) (jsqrt D)) (jmul (Fin 2) a);
             x2 = jdiv (jsub (jneg b) (jsqrt D)) (jmul (Fin 2) a)
         in \<exists>lo hi. solveQuadratic isNumeric a b c
              = Inr \<lparr> quad_a = a, quad_b = b, quad_c = c, discriminant = D,
                      solutions = RealSolutions [lo, hi], solution_type = two_real,
                      verification = Some [verified_root a b c lo, verified_root a b c hi] \<rparr>
            \<and> ((lo, hi) = (x1, x2) \<or> (lo, hi) = (x2, x1))
            \<and> \<not> jlt hi lo"
proof -
  define D where "D = jsub (jmul b b) (jmul (jmul (Fin 4) a) c)"
  define x1 where "x1 = jdiv (jadd (jneg b) (jsqrt D)) (jmul (Fin 2) a)"
  define x2 where "x2 = jdiv (jsub (jneg b) (jsqrt D)) (jmul (Fin 2) a)"
  have g: "grid_value x1" "grid_value x2"
    unfolding grid_value_def x1_def x2_def by (auto intro: jdiv_on_grid)
  have valid: "validateQuadratic isNumeric a b c = []"
    using assms(1-4) by (simp add: validateQuadratic_ok)
  have run: "solveQuadratic isNumeric a b c
      = Inr \<lparr> quad_a = a, quad_b = b, quad_c = c, discriminant = D,
              solutions = RealSolutions (sort_js [x1, x2]), solution_type = two_real,
              verification = Some (verifySolutions a b c (sort_js [x1, x2])) \<rparr>"
    using assms(5) unfolding solveQuadratic_def valid Let_def D_def x1_def x2_def by simp
  show ?thesis
  proof (cases "jgt (jsub x1 x2) (Fin 0)")
    case True
    then have "sort_js [x1, x2] = [x2, x1]" by (simp add: sort_js_pair)
    moreover from True have "\<not> jlt x1 x2" by (rule swap_is_ascending)
    ultimately show ?thesis
      unfolding Let_def D_def [symmetric] x1_def [symmetric] x2_def [symmetric]
      using run by (auto simp: verifySolutions_pair)
  next
    case False
    then have "sort_js [x1, x2] = [x1, x2]" by (simp add: sort_js_pair)
    moreover from False g have "\<not> jlt x2 x1" by (rule keep_is_ascending)
    ultimately show ?thesis
      unfolding Let_def D_def [symmetric] x1_def [symmetric] x2_def [symmetric]
      using run by (auto simp: verifySolutions_pair)
  qed
qed

lemma tolerance_tests:
  "jlt (Fin 0) tol10" "jlt (Fin 0) tol6" "\<not> jlt (Fin 1) tol10" "\<not> jlt (Fin 1) tol6"
  by (simp_all add: tol10_value tol6_value)

theorem solveQuadratic_two_real_witness:
  "solveQuadratic (\<lambda>v. \<not> isNaN v) (Fin 1) (Fin (- 5)) (Fin 6)
     = Inr \<lparr> quad_a = Fin 1, quad_b = Fin (- 5), quad_c = Fin 6, discriminant = Fin 1,
             solutions = RealSolutions [Fin 2, Fin 3], solution_type = two_real,
             verification = Some [\<lparr> v_x = Fin 2, v_verification = Fin 0, isValid = True \<rparr>,
                                  \<lparr> v_x = Fin 3, v_verification = Fin 0, isValid = True \<rparr>] \<rparr>"
proof -
  have d: "jsub (jmul (Fin (- 5)) (Fin (- 5))) (jmul (jmul (Fin 4) (Fin 1)) (Fin 6)) = Fin 1"
    by (simp add: jsub_def)
  have "\<exists>lo hi. solveQuadratic (\<lambda>v. \<not> isNaN v) (Fin 1) (Fin (- 5)) (Fin 6)
      = Inr \<lparr> quad_a = Fin 1, quad_b = Fin (- 5), quad_c = Fin 6, discriminant = Fin 1,
              solutions = RealSolutions [lo, hi], solution_type = two_real,
              verification = Some [verified_root (Fin 1) (Fin (- 5)) (Fin 6) lo,
                                   verified_root (Fin 1) (Fin (- 5)) (Fin 6) hi] \<rparr>
      \<and> ((lo, hi) = (Fin 3, Fin 2) \<or> (lo, hi) = (Fin 2, Fin 3)) \<and> \<not> jlt hi lo"
    using solveQuadratic_two_real [of "Fin 1" "\<lambda>v. \<not> isNaN v" "Fin (- 5)" "Fin 6"]
    unfolding Let_def d by (simp add: jgt_def jsub_def)
  then show ?thesis
    by (auto simp: verified_root_def residual_def tolerance_tests)
qed

lemma round64_powers:
  "round64 (2 ^ 60) = Fin (2 ^ 60)" "round64 (- (2 ^ 60)) = Fin (- (2 ^ 60))"
  "round64 (- (2 ^ 61)) = Fin (- (2 ^ 61))"
  "round64 (2 ^ 120) = Fin (2 ^ 120)" "round64 (- (2 ^ 120)) = Fin (- (2 ^ 120))"
  using round64_nat_scaled [of 1 60] round64_nat_scaled [of "- 1" 60]
    round64_nat_scaled [of "- 1" 61] round64_nat_scaled [of 1 120]
    round64_nat_scaled [of "- 1" 120]
  by simp_all

lemma sqrt_2_120: "sqrt (2 ^ 120) = 2 ^ 60"
  by (rule real_sqrt_unique) simp_all

text \<open>
  Claim C4 as stated fails: the computed roots need not satisfy the equation. For
  \<open>a = 1\<close>, \<open>b = 2 ^ 60\<close>, \<open>c = 1\<close> the subtraction \<open>b b - 4 a c\<close> rounds to \<open>2 ^ 120\<close>, the
  roots returned are \<open>- (2 ^ 60)\<close> and \<open>0\<close>, and at both the residual is 1: the
  verification array reports 1 and \<open>isValid = false\<close> for each.
\<close>

theorem roots_fail_verification:
  "solveQuadratic (\<lambda>v. \<not> isNaN v) (Fin 1) (Fin (2 ^ 60)) (Fin 1)
     = Inr \<lparr> quad_a = Fin 1, quad_b = Fin (2 ^ 60), quad_c = Fin 1,
             discriminant = Fin (2 ^ 120),
             solutions = RealSolutions [Fin (- (2 ^ 60)), Fin 0], solution_type = two_real,
             verification = Some [\<lparr> v_x = Fin (- (2 ^ 60)), v_verification = Fin 1, isValid = False \<rparr>,
                                  \<lparr> v_x = Fin 0, v_verification = Fin 1, isValid = False \<rparr>] \<rparr>"
proof -
  note r = round64_powers [simplified] round64_pow2_rounding [simplified] sqrt_2_120 [simplified]
  have d: "jsub (jmul (Fin (2 ^ 60)) (Fin (2 ^ 60))) (jmul (jmul (Fin 4) (Fin 1)) (Fin 1)) = Fin (2 ^ 120)"
    by (simp add: jsub_def r)
  have s: "jsqrt (Fin (2 ^ 120)) = Fin (2 ^ 60)"
    by (simp add: r)
  have x1: "jdiv (jadd (jneg (Fin (2 ^ 60))) (Fin (2 ^ 60))) (jmul (Fin 2) (Fin 1)) = Fin 0"
    by simp
  have x2: "jdiv (jsub (jneg (Fin (2 ^ 60))) (Fin (2 ^ 60))) (jmul (Fin 2) (Fin 1)) = Fin (- (2 ^ 60))"
    by (simp add: jsub_def r)
  have order: "sort_js [Fin 0, Fin (- (2 ^ 60))] = [Fin (- (2 ^ 60)), Fin 0]"
    by (simp add: sort_js_pair jsub_def jgt_def r)
  have res: "residual (Fin 1) (Fin (2 ^ 60)) (Fin 1) (Fin (- (2 ^ 60))) = Fin 1"
    "residual (Fin 1) (Fin (2 ^ 60)) (Fin 1) (Fin 0) = Fin 1"
    by (simp_all add: residual_def r)
  have valid: "validateQuadratic (\<lambda>v. \<not> isNaN v) (Fin 1) (Fin (2 ^ 60)) (Fin 1) = []"
    by (simp add: validateQuadratic_ok)
  show ?thesis
    unfolding solveQuadratic_def valid Let_def d s x1 x2 order
    by (simp add: jgt_def verifySolutions_def res [simplified] clamp_residual_def
        tolerance_tests Let_def)
qed

section \<open>Properties of quartiles and outliers\<close>

text \<open>
  For an array of a length that JavaScript allows (below \<open>2 ^ 32\<close>) the three
  products \<open>n * 0.25\<close>, \<open>n * 0.5\<close> and \<open>n * 0.75\<close> are exact, and their floors are
  \<open>n div 4\<close>, \<open>n div 2\<close> and \<open>3 n div 4\<close>.
\<close>

lemma quartile_index_bound:
  "0 < n \<Longrightarrow> nat \<lfloor>real n * 0.25\<rfloor> < n \<and> nat \<lfloor>real n * 0.5\<rfloor> < n \<and> nat \<lfloor>real n * 0.75\<rfloor> < n"
  by (auto simp: nat_less_iff floor_less_iff)

lemma quartile_index_div:
  "nat \<lfloor>real n * 0.25\<rfloor> = n div 4" "nat \<lfloor>real n * 0.5\<rfloor> = n div 2" "nat \<lfloor>real n * 0.75\<rfloor> = 3 * n div 4"
proof -
  have "real n * 0.25 = real n / real 4" "real n * 0.5 = real n / real 2"
       "real n * 0.75 = real (3 * n) / real 4"
    by simp_all
  then show "nat \<lfloor>real n * 0.25\<rfloor> = n div 4" "nat \<lfloor>real n * 0.5\<rfloor> = n div 2"
       "nat \<lfloor>real n * 0.75\<rfloor> = 3 * n div 4"
    by (simp_all only: floor_divide_of_nat_eq nat_int)
qed

lemma quartile_products:
  assumes "length xs < 2 ^ 32"
  shows "jmul (of_length xs) (Fin 0.25) = Fin (real (length xs) * 0.25)"
    and "jmul (of_length xs) (Fin 0.5) = Fin (real (length xs) * 0.5)"
    and "jmul (of_length xs) (Fin 0.75) = Fin (real (length xs) * 0.75)"
proof -
  from assms have a: "\<bar>int (length xs)\<bar> < 2 ^ 53" and b: "\<bar>int (length xs * 3)\<bar> < 2 ^ 53"
    by simp_all
  have "real (length xs) * 0.25 = of_int (int (length xs)) / 2 ^ 2"
    "real (length xs) * 0.5 = of_int (int (length xs)) / 2 ^ 1"
    "real (length xs) * 0.75 = of_int (int (length xs * 3)) / 2 ^ 2"
    by simp_all
  then show "jmul (of_length xs) (Fin 0.25) = Fin (real (length xs) * 0.25)"
    and "jmul (of_length xs) (Fin 0.5) = Fin (real (length xs) * 0.5)"
    and "jmul (of_length xs) (Fin 0.75) = Fin (real (length xs) * 0.75)"
    using round64_nat_divided [OF a, of 2] round64_nat_divided [OF a, of 1]
      round64_nat_divided [OF b, of 2]
    by (simp_all add: of_length_def)
qed

lemma js_index_floor:
  assumes "0 \<le> r" and "nat \<lfloor>r\<rfloor> < length xs"
  shows "js_index xs (jfloor (Fin r)) = Some (xs ! nat \<lfloor>r\<rfloor>)"
  using assms by (simp add: js_index_def js_nth_def)

lemma calculateQuartiles_nonempty:
  assumes "xs \<noteq> []" and "length xs < 2 ^ 32"
  shows "calculateQuartiles xs
      = \<lparr> q1 = Some (xs ! nat \<lfloor>real (length xs) * 0.25\<rfloor>),
          q2 = Some (xs ! nat \<lfloor>real (length xs) * 0.5\<rfloor>),
          q3 = Some (xs ! nat \<lfloor>real (length xs) * 0.75\<rfloor>) \<rparr>"
proof -
  from assms(1) have n: "0 < length xs" by simp
  note b = quartile_index_bound [OF n]
  have "js_index xs (jfloor (Fin (real (length xs) * 0.25))) = Some (xs ! nat \<lfloor>real (length xs) * 0.25\<rfloor>)"
    "js_index xs (jfloor (Fin (real (length xs) * 0.5))) = Some (xs ! nat \<lfloor>real (length xs) * 0.5\<rfloor>)"
    "js_index xs (jfloor (Fin (real (length xs) * 0.75))) = Some (xs ! nat \<lfloor>real (length xs) * 0.75\<rfloor>)"
    using b js_index_floor [of "real (length xs) * 0.25" xs]
      js_index_floor [of "real (length xs) * 0.5" xs]
      js_index_floor [of "real (length xs) * 0.75" xs]
    by simp_all
  then show ?thesis
    unfolding calculateQuartiles_def Let_def quartile_products [OF assms(2)] by simp
qed

text \<open>
  Claim C7. For every non-empty sample of length \<open>n\<close> (sorted or not), the quartiles are
  read by index with no interpolation: \<open>q1 = sorted[floor(n 0.25)]\<close>,
  \<open>q2 = sorted[floor(n 0.5)]\<close>, \<open>q3 = sorted[floor(n 0.75)]\<close>; and the outliers are exactly
  the values outside \<open>[q1 - 1.5 IQR, q3 + 1.5 IQR]\<close> with \<open>IQR = q3 - q1\<close>, in the
  order of the sample. The bounds are the ones that double arithmetic computes.
\<close>

theorem quartiles_outliers_spec:
  assumes "xs \<noteq> []" and "length xs < 2 ^ 32"
  shows "let n = length xs;
             Q1 = xs ! nat \<lfloor>real n * 0.25\<rfloor>;
             Q2 = xs ! nat \<lfloor>real n * 0.5\<rfloor>;
             Q3 = xs ! nat \<lfloor>real n * 0.75\<rfloor>;
             IQR = jsub Q3 Q1
         in calculateQuartiles xs = \<lparr> q1 = Some Q1, q2 = Some Q2, q3 = Some Q3 \<rparr>
          \<and> detectOutliers xs
              = filter (\<lambda>v. jlt v (jsub Q1 (jmul (Fin 1.5) IQR))
                           \<or> jgt v (jadd Q3 (jmul (Fin 1.5) IQR))) xs"
  unfolding Let_def detectOutliers_def calculateQuartiles_nonempty [OF assms]
  by simp

theorem quartiles_outliers_spec_witness:
  "calculateQuartiles [Fin 1, Fin 2, Fin 3, Fin 4, Fin 100]
     = \<lparr> q1 = Some (Fin 2), q2 = Some (Fin 3), q3 = Some (Fin 4) \<rparr>
   \<and> detectOutliers [Fin 1, Fin 2, Fin 3, Fin 4, Fin 100] = [Fin 100]"
  using quartiles_outliers_spec [of "[Fin 1, Fin 2, Fin 3, Fin 4, Fin 100]"]
  by (simp add: Let_def jsub_def jgt_def)

section \<open>Properties of the statistics handlers\<close>

lemma filter_length_neq: "length (filter P vs) \<noteq> length vs \<longleftrightarrow> (\<exists>v\<in>set vs. \<not> P v)"
proof
  assume "length (filter P vs) \<noteq> length vs"
  then have "filter P vs \<noteq> vs" by auto
  then show "\<exists>v\<in>set vs. \<not> P v" by (simp add: filter_id_conv)
next
  assume "\<exists>v\<in>set vs. \<not> P v"
  then obtain v where "v \<in> set vs" "\<not> P v" by blast
  then have "length (filter P vs) < length vs" by (rule length_filter_less)
  then show "length (filter P vs) \<noteq> length vs" by simp
qed

lemma numeric_values_invalid:
  "numeric_values (JArr vs) = Inl InvalidNumbers \<longleftrightarrow> (\<exists>v\<in>set vs. \<not> is_valid_number v)"
  by (auto simp: numeric_values_def Let_def filter_length_neq)

lemma numeric_values_accepts:
  "vs \<noteq> [] \<Longrightarrow> \<forall>v\<in>set vs. is_valid_number v
     \<Longrightarrow> numeric_values (JArr vs) = Inr (map the_number vs)"
  by (simp add: numeric_values_def Let_def filter_length_neq filter_id_conv[THEN iffD2])

lemma is_valid_number_iff: "is_valid_number v \<longleftrightarrow> (\<exists>n. v = JNum n \<and> n \<noteq> NaN)"
  by (cases v; auto elim: isNaN.elims)

text \<open>
  Claim C3, as the code has it. Both handlers of descriptive statistics reject an
  array with the invalid-numbers error, before any statistic is computed, exactly
  when some element is not valid; and an element is valid exactly when it is of type
  number and is not NaN. \<open>Infinity\<close> and \<open>-Infinity\<close> are therefore valid elements.
\<close>

theorem describe_validation:
  "(api_stats (JArr vs) = Inl InvalidNumbers \<longleftrightarrow> (\<exists>v\<in>set vs. \<not> is_valid_number v))
   \<and> (stats_descriptive lib (JArr vs) = Inl InvalidNumbers
        \<longleftrightarrow> (\<exists>v\<in>set vs. \<not> is_valid_number v))
   \<and> (is_valid_number v \<longleftrightarrow> (\<exists>n. v = JNum n \<and> n \<noteq> NaN))"
proof (intro conjI)
  show "api_stats (JArr vs) = Inl InvalidNumbers \<longleftrightarrow> (\<exists>v\<in>set vs. \<not> is_valid_number v)"
    using numeric_values_invalid [of vs]
    by (auto simp: api_stats_def Let_def split: sum.splits)
  show "stats_descriptive lib (JArr vs) = Inl InvalidNumbers
        \<longleftrightarrow> (\<exists>v\<in>set vs. \<not> is_valid_number v)"
    using numeric_values_invalid [of vs]
    by (auto simp: stats_descriptive_def Let_def split: sum.splits)
  show "is_valid_number v \<longleftrightarrow> (\<exists>n. v = JNum n \<and> n \<noteq> NaN)"
    by (rule is_valid_number_iff)
qed

theorem describe_validation_witness:
  "api_stats (JArr [JNum (Fin 1), JStr ''2'']) = Inl InvalidNumbers
   \<and> stats_descriptive simple_statistics (JArr [JNum (Fin 1), JNum NaN]) = Inl InvalidNumbers
   \<and> is_valid_number (JNum NInf)
   \<and> api_stats (JArr [JNum (Fin 1), JNum NInf])
       = Inr \<lparr> count = 2, stat_sum = NInf, mean = NInf, median = NInf, stat_min = NInf,
               stat_max = Fin 1, stat_range = PInf, variance = NaN, standardDeviation = NaN \<rparr>"
proof -
  have "api_stats (JArr [JNum (Fin 1), JNum NInf])
      = Inr \<lparr> count = 2, stat_sum = NInf, mean = NInf, median = NInf, stat_min = NInf,
              stat_max = Fin 1, stat_range = PInf, variance = NaN, standardDeviation = NaN \<rparr>"
    by (simp add: api_stats_def numeric_values_def sort_js_def num_at_def js_nth_def
        Math_min_def Math_max_def jmin2_def jmax2_def jsub_def jgt_def Let_def numeral_2_eq_2)
  then show ?thesis
    using describe_validation [of "[JNum (Fin 1), JStr ''2'']" simple_statistics "JNum NInf"]
      describe_validation [of "[JNum (Fin 1), JNum NaN]" simple_statistics "JNum NInf"]
    by simp
qed

text \<open>
  Claim C3 as stated fails: the sample \<open>[Infinity]\<close> is not rejected by \<open>/api/stats\<close>,
  and its range, variance and standard deviation are NaN.
\<close>

theorem describe_accepts_infinity:
  "api_stats (JArr [JNum PInf])
     = Inr \<lparr> count = 1, stat_sum = PInf, mean = PInf, median = PInf, stat_min = PInf,
             stat_max = PInf, stat_range = NaN, variance = NaN, standardDeviation = NaN \<rparr>"
  by (simp add: api_stats_def numeric_values_def sort_js_def num_at_def js_nth_def
      Math_min_def Math_max_def jmin2_def jmax2_def jsub_def Let_def numeral_2_eq_2)

lemma calculateQuartiles_5_5:
  "calculateQuartiles [Fin 5, Fin 5] = \<lparr> q1 = Some (Fin 5), q2 = Some (Fin 5), q3 = Some (Fin 5) \<rparr>"
  using calculateQuartiles_nonempty [of "[Fin 5, Fin 5]"] by simp

lemma jdiv_by_zero:
  "jdiv x (Fin 0) \<noteq> NaN \<Longrightarrow> jdiv x (Fin 0) \<noteq> NInf \<Longrightarrow> jdiv x (Fin 0) = PInf"
  by (cases x) (auto split: if_splits)

text \<open>
  Claim C2, as the code has it. The handler of \<open>/normalize\<close> has no test of the scale:
  for every non-empty array of valid numbers and each of the three methods it
  succeeds and returns, for each \<open>x\<close>, the quotient of \<open>x\<close> minus the centre by the
  scale of the method. When the scale is zero every returned value is NaN or an
  infinity.
\<close>

theorem normalize_never_degenerate:
  assumes "vs \<noteq> []" and "\<forall>v\<in>set vs. is_valid_number v"
    and "method = ''zscore'' \<or> method = ''minmax'' \<or> method = ''robust''"
  shows "\<exists>r. normalize_sample lib (JArr vs) (JStr method) = Inr r
     \<and> normalized_data r
         = map (\<lambda>x. jdiv (jsub x (method_centre lib method (map the_number vs)))
                          (method_scale lib method (map the_number vs)))
             (map the_number vs)
     \<and> (method_scale lib method (map the_number vs) = Fin 0
          \<longrightarrow> (\<forall>y\<in>set (normalized_data r). y = NaN \<or> y = PInf \<or> y = NInf))"
proof -
  have nv: "numeric_values (JArr vs) = Inr (map the_number vs)"
    using assms(1,2) by (rule numeric_values_accepts)
  from assms(3) show ?thesis
    by (elim disjE)
       (auto simp: normalize_sample_def nv Let_def normalize_zscore_def normalize_minmax_def
          normalize_robust_def method_centre_def method_scale_def
          intro: jdiv_by_zero)
qed

theorem normalize_never_degenerate_witness:
  "normalized_data (projr (normalize_sample simple_statistics
       (JArr [JNum (Fin 1), JNum (Fin 2), JNum (Fin 3)]) (JStr ''minmax'')))
     = [Fin 0, Fin (1 / 2), Fin 1]
   \<and> method_scale simple_statistics ''robust'' [Fin 5, Fin 5] = Fin 0
   \<and> normalized_data (projr (normalize_sample simple_statistics
       (JArr [JNum (Fin 5), JNum (Fin 5)]) (JStr ''robust'')))
     = [NaN, NaN]"
proof -
  have sc: "method_scale simple_statistics ''robust'' [Fin 5, Fin 5] = Fin 0"
    "method_centre simple_statistics ''robust'' [Fin 5, Fin 5] = Fin 5"
    by (simp_all add: method_scale_def method_centre_def calculateQuartiles_5_5 sort_js_def
        jsub_def jgt_def simple_statistics_def ss_median_def of_length_def num_at_def js_nth_def
        numeral_2_eq_2)
  have mm: "method_scale simple_statistics ''minmax'' [Fin 1, Fin 2, Fin 3] = Fin 2"
    "method_centre simple_statistics ''minmax'' [Fin 1, Fin 2, Fin 3] = Fin 1"
    by (simp_all add: method_scale_def method_centre_def simple_statistics_def ss_min_def
        ss_max_def num_at_def js_nth_def jsub_def jgt_def)
  have "normalized_data (projr (normalize_sample simple_statistics
       (JArr [JNum (Fin 1), JNum (Fin 2), JNum (Fin 3)]) (JStr ''minmax'')))
     = [Fin 0, Fin (1 / 2), Fin 1]"
    using normalize_never_degenerate [of "[JNum (Fin 1), JNum (Fin 2), JNum (Fin 3)]" "''minmax''" simple_statistics]
    by (auto simp: mm jsub_def)
  moreover have "normalized_data (projr (normalize_sample simple_statistics
       (JArr [JNum (Fin 5), JNum (Fin 5)]) (JStr ''robust'')))
     = [NaN, NaN]"
    using normalize_never_degenerate [of "[JNum (Fin 5), JNum (Fin 5)]" "''robust''" simple_statistics]
    by (auto simp: sc jsub_def)
  ultimately show ?thesis using sc(1) by simp
qed

text \<open>
  Claim C2 as stated fails: on the sample \<open>[5, 5]\<close> the scale of every method is zero,
  and the handler returns no error (the result is not a left injection) but the data
  \<open>[NaN, NaN]\<close> with the parameters.
\<close>

theorem normalize_zero_scale_counterexample:
  "\<not> isl (normalize_sample simple_statistics (JArr [JNum (Fin 5), JNum (Fin 5)]) (JStr ''minmax''))
   \<and> \<not> isl (normalize_sample simple_statistics (JArr [JNum (Fin 5), JNum (Fin 5)]) (JStr ''zscore''))
   \<and> \<not> isl (normalize_sample simple_statistics (JArr [JNum (Fin 5), JNum (Fin 5)]) (JStr ''robust''))
   \<and> normalized_data (projr (normalize_sample simple_statistics
         (JArr [JNum (Fin 5), JNum (Fin 5)]) (JStr ''minmax''))) = [NaN, NaN]
   \<and> used_parameters (projr (normalize_sample simple_statistics
         (JArr [JNum (Fin 5), JNum (Fin 5)]) (JStr ''minmax'')))
       = MinMaxParameters (Fin 5) (Fin 5) (Fin 0)
   \<and> normalized_data (projr (normalize_sample simple_statistics
         (JArr [JNum (Fin 5), JNum (Fin 5)]) (JStr ''zscore''))) = [NaN, NaN]
   \<and> used_parameters (projr (normalize_sample simple_statistics
         (JArr [JNum (Fin 5), JNum (Fin 5)]) (JStr ''zscore'')))
       = ZScoreParameters (Fin 5) (Fin 0)
   \<and> normalized_data (projr (normalize_sample simple_statistics
         (JArr [JNum (Fin 5), JNum (Fin 5)]) (JStr ''robust''))) = [NaN, NaN]
   \<and> used_parameters (projr (normalize_sample simple_statistics
         (JArr [JNum (Fin 5), JNum (Fin 5)]) (JStr ''robust'')))
       = RobustParameters (Fin 5) (Some (Fin 5)) (Some (Fin 5)) (Fin 0)"
  by (simp add: normalize_sample_def numeric_values_def normalize_minmax_def normalize_zscore_def
      normalize_robust_def simple_statistics_def ss_min_def ss_max_def ss_mean_def
      ss_standardDeviation_def ss_variance_def ss_median_def of_length_def num_at_def
      js_nth_def jsub_def jgt_def calculateQuartiles_5_5 sort_js_def numeral_2_eq_2 Let_def)

section \<open>Properties of the correlation matrix\<close>

lemma for_each_total:
  assumes "\<And>i s. i \<in> set js \<Longrightarrow> body i s = Inr (f i s)"
  shows "for_each body js s = Inr (fold f js s)"
  using assms by (induction js arbitrary: s) simp_all

lemma calculateCorrelation_returns:
  "x \<noteq> [] \<Longrightarrow> y \<noteq> []
     \<Longrightarrow> calculateCorrelation lib x y = Inr (projr (calculateCorrelation lib x y))"
  by (simp add: calculateCorrelation_def package_call_def Let_def)

lemma calculateCorrelation_throws: "calculateCorrelation lib [] y = Inl InternalError"
  by (simp add: calculateCorrelation_def package_call_def)

lemma correlation_entry_total:
  assumes "dataset ds (vars ! i) \<noteq> []" and "dataset ds (vars ! j) \<noteq> []"
  shows "correlation_entry lib ds vars i j rows = Inr (store_entry lib ds vars i j rows)"
proof (cases "i = j")
  case True
  then show ?thesis
    by (simp add: correlation_entry_def store_entry_def entry_values_def Let_def)
next
  case False
  obtain c where c: "calculateCorrelation lib (dataset ds (vars ! i)) (dataset ds (vars ! j)) = Inr c"
    using calculateCorrelation_returns [OF assms] by blast
  with False show ?thesis
    by (simp add: correlation_entry_def store_entry_def entry_values_def Let_def
        tDistribution_def jsub_def)
qed

lemma fold_entries:
  assumes "distinct vars" and "\<forall>k\<in>set js. k < length vars" and "j \<in> set js"
    and "vars ! j \<noteq> ''__proto__''"
  shows "fst (fold (store_entry lib ds vars i) js rows) (vars ! j)
           = Some (fst (entry_values lib ds vars i j))
       \<and> snd (fold (store_entry lib ds vars i) js rows) (vars ! j)
           = Some (snd (entry_values lib ds vars i j))"
  using assms(2,3)
proof (induction js rule: rev_induct)
  case Nil
  then show ?case by simp
next
  case (snoc k js)
  show ?case
  proof (cases "j = k")
    case True
    with assms(4) show ?thesis by (simp add: store_entry_def set_property_def)
  next
    case False
    with snoc.prems have j: "j \<in> set js" "j < length vars" "k < length vars" by auto
    with False assms(1) have "vars ! j \<noteq> vars ! k" by (simp add: nth_eq_iff_index_eq)
    with snoc.IH j snoc.prems show ?thesis by (simp add: store_entry_def set_property_def)
  qed
qed

lemma fold_entries_proto:
  "fst (fold (store_entry lib ds vars i) js rows) ''__proto__'' = fst rows ''__proto__''
   \<and> snd (fold (store_entry lib ds vars i) js rows) ''__proto__'' = snd rows ''__proto__''"
  by (induction js arbitrary: rows) (simp_all add: store_entry_def set_property_def)

lemma fold_rows:
  assumes "distinct vars" and "\<forall>k\<in>set js. k < length vars" and "i \<in> set js"
    and "vars ! i \<noteq> ''__proto__''"
  shows "fst (fold (store_row lib ds vars) js ms) (vars ! i)
           = Some (fst (fold (store_entry lib ds vars i) [0..<length vars]
                          (Map.empty, Map.empty)))
       \<and> snd (fold (store_row lib ds vars) js ms) (vars ! i)
           = Some (snd (fold (store_entry lib ds vars i) [0..<length vars]
                          (Map.empty, Map.empty)))"
  using assms(2,3)
proof (induction js rule: rev_induct)
  case Nil
  then show ?case by simp
next
  case (snoc k ks)
  show ?case
  proof (cases "i = k")
    case True
    with assms(4) show ?thesis by (simp add: store_row_def set_property_def)
  next
    case False
    with snoc.prems have i: "i \<in> set ks" "i < length vars" "k < length vars" by auto
    with False assms(1) have "vars ! i \<noteq> vars ! k" by (simp add: nth_eq_iff_index_eq)
    with snoc.IH i snoc.prems show ?thesis by (simp add: store_row_def set_property_def)
  qed
qed

lemma fold_rows_proto:
  "fst (fold (store_row lib ds vars) js ms) ''__proto__'' = fst ms ''__proto__''
   \<and> snd (fold (store_row lib ds vars) js ms) ''__proto__'' = snd ms ''__proto__''"
  by (induction js arbitrary: ms) (simp_all add: store_row_def set_property_def)

lemma matrices_entries:
  assumes "distinct vars" and "i < length vars" and "j < length vars"
  shows "entry (fst (fold (store_row lib ds vars) [0..<length vars] (Map.empty, Map.empty)))
           (vars ! i) (vars ! j)
           = (if vars ! i = ''__proto__'' \<or> vars ! j = ''__proto__'' then None
              else Some (fst (entry_values lib ds vars i j)))"
    and "entry (snd (fold (store_row lib ds vars) [0..<length vars] (Map.empty, Map.empty)))
           (vars ! i) (vars ! j)
           = (if vars ! i = ''__proto__'' \<or> vars ! j = ''__proto__'' then None
              else Some (snd (entry_values lib ds vars i j)))"
proof -
  let ?M = "fold (store_row lib ds vars) [0..<length vars] (Map.empty, Map.empty)"
  let ?R = "fold (store_entry lib ds vars i) [0..<length vars] (Map.empty, Map.empty)"
  have row_proto: "fst ?M ''__proto__'' = None" "snd ?M ''__proto__'' = None"
    using fold_rows_proto [of lib ds vars "[0..<length vars]" "(Map.empty, Map.empty)"]
    by simp_all
  have col_proto: "fst ?R ''__proto__'' = None" "snd ?R ''__proto__'' = None"
    using fold_entries_proto [of lib ds vars i "[0..<length vars]" "(Map.empty, Map.empty)"]
    by simp_all
  have row: "vars ! i \<noteq> ''__proto__'' \<Longrightarrow> fst ?M (vars ! i) = Some (fst ?R)"
    "vars ! i \<noteq> ''__proto__'' \<Longrightarrow> snd ?M (vars ! i) = Some (snd ?R)"
    using fold_rows [OF assms(1), of "[0..<length vars]" i lib ds "(Map.empty, Map.empty)"]
      assms(2)
    by simp_all
  have col: "vars ! j \<noteq> ''__proto__'' \<Longrightarrow> fst ?R (vars ! j) = Some (fst (entry_values lib ds vars i j))"
    "vars ! j \<noteq> ''__proto__'' \<Longrightarrow> snd ?R (vars ! j) = Some (snd (entry_values lib ds vars i j))"
    using fold_entries [OF assms(1), of "[0..<length vars]" j lib ds i "(Map.empty, Map.empty)"]
      assms(3)
    by simp_all
  show "entry (fst ?M) (vars ! i) (vars ! j)
           = (if vars ! i = ''__proto__'' \<or> vars ! j = ''__proto__'' then None
              else Some (fst (entry_values lib ds vars i j)))"
  proof (cases "vars ! i = ''__proto__''")
    case True
    with row_proto(1) show ?thesis by (simp add: entry_def)
  next
    case False
    show ?thesis
    proof (cases "vars ! j = ''__proto__''")
      case True
      with row(1) [OF False] col_proto(1) show ?thesis by (simp add: entry_def)
    next
      case False
      with row(1) [OF \<open>vars ! i \<noteq> ''__proto__''\<close>] col(1) [OF False]
        \<open>vars ! i \<noteq> ''__proto__''\<close>
      show ?thesis by (simp add: entry_def)
    qed
  qed
  show "entry (snd ?M) (vars ! i) (vars ! j)
           = (if vars ! i = ''__proto__'' \<or> vars ! j = ''__proto__'' then None
              else Some (snd (entry_values lib ds vars i j)))"
  proof (cases "vars ! i = ''__proto__''")
    case True
    with row_proto(2) show ?thesis by (simp add: entry_def)
  next
    case False
    show ?thesis
    proof (cases "vars ! j = ''__proto__''")
      case True
      with row(2) [OF False] col_proto(2) show ?thesis by (simp add: entry_def)
    next
      case False
      with row(2) [OF \<open>vars ! i \<noteq> ''__proto__''\<close>] col(2) [OF False]
        \<open>vars ! i \<noteq> ''__proto__''\<close>
      show ?thesis by (simp add: entry_def)
    qed
  qed
qed

lemma dataset_lookup: "distinct (map fst ds) \<Longrightarrow> (v, xs) \<in> set ds \<Longrightarrow> dataset ds v = xs"
  by (simp add: dataset_def)

lemma valid_datasets_arrays:
  assumes "valid_datasets ds" and "p \<in> set ds"
  shows "dataset ds (fst p) = snd p" and "length (dataset ds (fst p)) = length (snd (hd ds))"
proof -
  from assms(1) have d: "distinct (map fst ds)"
    and l: "\<forall>p\<in>set ds. length (snd p) = length (snd (hd ds))"
    by (simp_all add: valid_datasets_def)
  show "dataset ds (fst p) = snd p"
    using dataset_lookup [OF d, of "fst p" "snd p"] assms(2) by simp
  with l assms(2) show "length (dataset ds (fst p)) = length (snd (hd ds))"
    by simp
qed

lemma valid_datasets_checks:
  assumes "valid_datasets ds"
  shows "\<not> length (map fst ds) < 2"
    and "list_all (\<lambda>l. l = map (\<lambda>v. length (dataset ds v)) (map fst ds) ! 0)
           (map (\<lambda>v. length (dataset ds v)) (map fst ds))"
    and "map (\<lambda>v. length (dataset ds v)) (map fst ds) ! 0 = length (snd (hd ds))"
proof -
  from assms have n: "2 \<le> length ds" by (simp add: valid_datasets_def)
  then show "\<not> length (map fst ds) < 2" by simp
  from n have ne: "ds \<noteq> []" by auto
  have same: "\<forall>p\<in>set ds. length (dataset ds (fst p)) = length (snd (hd ds))"
    using valid_datasets_arrays(2) [OF assms] by blast
  with ne show first: "map (\<lambda>v. length (dataset ds v)) (map fst ds) ! 0 = length (snd (hd ds))"
    by (cases ds) simp_all
  show "list_all (\<lambda>l. l = map (\<lambda>v. length (dataset ds v)) (map fst ds) ! 0)
           (map (\<lambda>v. length (dataset ds v)) (map fst ds))"
    unfolding first using same by (simp add: list_all_iff)
qed

lemma correlation_accepts:
  assumes "valid_datasets ds" and "snd (hd ds) \<noteq> []"
  shows "correlation lib (Some ds)
     = Inr \<lparr> correlation_matrix = fst (fold (store_row lib ds (map fst ds))
                                       [0..<length ds] (Map.empty, Map.empty)),
             p_values = snd (fold (store_row lib ds (map fst ds))
                                       [0..<length ds] (Map.empty, Map.empty)),
             variables = map fst ds,
             sample_size = length (snd (hd ds)) \<rparr>"
proof -
  have filled: "dataset ds (map fst ds ! i) \<noteq> []" if "i < length ds" for i
  proof -
    from that have "ds ! i \<in> set ds" by simp
    from valid_datasets_arrays(2) [OF assms(1) this] assms(2) that show ?thesis
      by auto
  qed
  have inner: "correlation_entry lib ds (map fst ds) i j rows
      = Inr (store_entry lib ds (map fst ds) i j rows)"
    if "i < length ds" and "j < length ds" for i j rows
    using that by (intro correlation_entry_total filled)
  have outer: "correlation_rows lib ds (map fst ds) i ms = Inr (store_row lib ds (map fst ds) i ms)"
    if "i < length ds" for i ms
  proof -
    have "for_each (correlation_entry lib ds (map fst ds) i) [0..<length (map fst ds)]
            (Map.empty, Map.empty)
        = Inr (fold (store_entry lib ds (map fst ds) i) [0..<length (map fst ds)]
            (Map.empty, Map.empty))"
      using that by (intro for_each_total inner) simp_all
    then show ?thesis by (simp add: correlation_rows_def store_row_def Let_def)
  qed
  have "for_each (correlation_rows lib ds (map fst ds)) [0..<length (map fst ds)]
          (Map.empty, Map.empty)
      = Inr (fold (store_row lib ds (map fst ds)) [0..<length (map fst ds)]
          (Map.empty, Map.empty))"
    by (intro for_each_total outer) simp
  then show ?thesis
    using valid_datasets_checks [OF assms(1)] by (simp add: correlation_def Let_def)
qed

lemma correlation_throws:
  assumes "valid_datasets ds" and "snd (hd ds) = []"
  shows "correlation lib (Some ds) = Inl InternalError"
proof -
  from assms(1) have n: "2 \<le> length ds" by (simp add: valid_datasets_def)
  then have ne: "ds \<noteq> []" by auto
  then have "hd ds \<in> set ds" by simp
  from valid_datasets_arrays(2) [OF assms(1) this] assms(2)
  have "dataset ds (fst (hd ds)) = []" by simp
  moreover from ne have "map fst ds ! 0 = fst (hd ds)" by (simp add: hd_conv_nth)
  ultimately have empty: "dataset ds (map fst ds ! 0) = []" by simp
  from n have "0 < length ds" and "Suc 0 < length ds" by auto
  then have indices: "[0..<length (map fst ds)] = 0 # Suc 0 # [Suc (Suc 0)..<length ds]"
    by (simp add: upt_conv_Cons)
  have "correlation_rows lib ds (map fst ds) 0 ms = Inl InternalError" for ms
    unfolding correlation_rows_def Let_def indices
    by (simp add: correlation_entry_def Let_def empty calculateCorrelation_throws)
  then have "for_each (correlation_rows lib ds (map fst ds)) [0..<length (map fst ds)]
          (Map.empty, Map.empty) = Inl InternalError"
    unfolding indices by simp
  then show ?thesis
    using valid_datasets_checks [OF assms(1)] by (simp add: correlation_def Let_def)
qed

lemma fold_entries_other:
  assumes "w \<notin> set (map ((!) vars) js)"
  shows "fst (fold (store_entry lib ds vars i) js rows) w = fst rows w
       \<and> snd (fold (store_entry lib ds vars i) js rows) w = snd rows w"
  using assms by (induction js arbitrary: rows) (auto simp: store_entry_def set_property_def)

lemma fold_rows_other:
  assumes "v \<notin> set (map ((!) vars) js)"
  shows "fst (fold (store_row lib ds vars) js ms) v = fst ms v
       \<and> snd (fold (store_row lib ds vars) js ms) v = snd ms v"
  using assms by (induction js arbitrary: ms) (auto simp: store_row_def set_property_def)

lemma matrices_entries_only:
  assumes "distinct vars"
    and "entry (fst (fold (store_row lib ds vars) [0..<length vars] (Map.empty, Map.empty))) v w
           = Some x
       \<or> entry (snd (fold (store_row lib ds vars) [0..<length vars] (Map.empty, Map.empty))) v w
           = Some x"
  shows "\<exists>i j. i < length vars \<and> j < length vars \<and> v = vars ! i \<and> w = vars ! j
           \<and> v \<noteq> ''__proto__'' \<and> w \<noteq> ''__proto__''"
proof -
  let ?M = "fold (store_row lib ds vars) [0..<length vars] (Map.empty, Map.empty)"
  have names: "set (map ((!) vars) [0..<length vars]) = set vars"
    by (simp add: map_nth)
  have rowless: "fst ?M v = None \<and> snd ?M v = None" if "v \<notin> set vars"
    using fold_rows_other [of v vars "[0..<length vars]" lib ds "(Map.empty, Map.empty)"] that
    unfolding names by simp
  have "v \<in> set vars"
  proof (rule ccontr)
    assume "v \<notin> set vars"
    from rowless [OF this] assms(2) show False by (simp add: entry_def)
  qed
  then obtain i where i: "i < length vars" "v = vars ! i"
    by (auto simp: in_set_conv_nth)
  let ?R = "fold (store_entry lib ds vars i) [0..<length vars] (Map.empty, Map.empty)"
  have vp: "v \<noteq> ''__proto__''"
  proof
    assume "v = ''__proto__''"
    with fold_rows_proto [of lib ds vars "[0..<length vars]" "(Map.empty, Map.empty)"] assms(2)
    show False by (simp add: entry_def)
  qed
  then have row: "fst ?M v = Some (fst ?R)" "snd ?M v = Some (snd ?R)"
    using fold_rows [OF assms(1), of "[0..<length vars]" i lib ds "(Map.empty, Map.empty)"] i
    by simp_all
  have colless: "fst ?R w = None \<and> snd ?R w = None" if "w \<notin> set vars"
    using fold_entries_other [of w vars "[0..<length vars]" lib ds i "(Map.empty, Map.empty)"] that
    unfolding names by simp
  have "w \<in> set vars"
  proof (rule ccontr)
    assume "w \<notin> set vars"
    from colless [OF this] assms(2) row show False by (simp add: entry_def)
  qed
  then obtain j where j: "j < length vars" "w = vars ! j"
    by (auto simp: in_set_conv_nth)
  have wp: "w \<noteq> ''__proto__''"
  proof
    assume "w = ''__proto__''"
    with fold_entries_proto [of lib ds vars i "[0..<length vars]" "(Map.empty, Map.empty)"]
      assms(2) row
    show False by (simp add: entry_def)
  qed
  from i j vp wp show ?thesis by blast
qed

text \<open>
  Claim C9. For every valid request (at least two variables, arrays of one length),
  every diagonal entry of the correlation matrix that the handler returns is exactly
  1, whatever the data and whatever the statistics package computes: it is assigned,
  not computed. Every variable has such an entry, but for the name \<open>__proto__\<close>,
  which no object stores as a property: it has no row and no entry. A matrix is
  returned when the arrays are not empty; for empty arrays the package throws and the
  handler answers with the internal error.
\<close>

theorem correlation_diagonal:
  assumes "valid_datasets ds"
  shows "(\<forall>r v x. correlation lib (Some ds) = Inr r \<and> entry (correlation_matrix r) v v = Some x
            \<longrightarrow> x = Fin 1)
       \<and> (\<forall>r v. correlation lib (Some ds) = Inr r \<and> v \<in> set (map fst ds) \<longrightarrow>
            entry (correlation_matrix r) v v
              = (if v = ''__proto__'' then None else Some (Fin 1)))
       \<and> (snd (hd ds) \<noteq> [] \<longrightarrow> (\<exists>r. correlation lib (Some ds) = Inr r))
       \<and> (snd (hd ds) = [] \<longrightarrow> correlation lib (Some ds) = Inl InternalError)"
proof (cases "snd (hd ds) = []")
  case True
  then show ?thesis by (simp add: correlation_throws [OF assms])
next
  case False
  from assms have d: "distinct (map fst ds)" by (simp add: valid_datasets_def)
  let ?M = "fold (store_row lib ds (map fst ds)) [0..<length (map fst ds)] (Map.empty, Map.empty)"
  note ok = correlation_accepts [OF assms False, of lib]
  have variable: "entry (fst ?M) v v = (if v = ''__proto__'' then None else Some (Fin 1))"
    if "v \<in> set (map fst ds)" for v
  proof -
    from that obtain i where i: "i < length (map fst ds)" "map fst ds ! i = v"
      by (auto simp: in_set_conv_nth)
    from matrices_entries(1) [OF d i(1) i(1), of lib ds] i show ?thesis
      by (simp add: entry_values_def)
  qed
  have any: "x = Fin 1" if "entry (fst ?M) v v = Some x" for v x
  proof -
    from matrices_entries_only [OF d, of lib ds v v x] that
    have "v \<in> set (map fst ds)" by auto
    from variable [OF this] that show ?thesis by (simp split: if_splits)
  qed
  show ?thesis
    using False variable any by (auto simp: ok)
qed

theorem correlation_diagonal_witness:
  "(\<exists>r. correlation simple_statistics
          (Some [(''height'', [Fin 170, Fin 175, Fin 180]), (''weight'', [Fin 65, Fin 70, Fin 80])])
        = Inr r
      \<and> entry (correlation_matrix r) ''height'' ''height'' = Some (Fin 1))
   \<and> (\<exists>r. correlation simple_statistics
          (Some [(''__proto__'', [Fin 1, Fin 2]), (''weight'', [Fin 65, Fin 70])])
        = Inr r
      \<and> entry (correlation_matrix r) ''__proto__'' ''__proto__'' = None
      \<and> entry (correlation_matrix r) ''weight'' ''weight'' = Some (Fin 1))
   \<and> correlation simple_statistics (Some [(''height'', []), (''weight'', [])])
       = Inl InternalError"
proof -
  let ?a = "[(''height'', [Fin 170, Fin 175, Fin 180]), (''weight'', [Fin 65, Fin 70, Fin 80])]"
  let ?b = "[(''__proto__'', [Fin 1, Fin 2]), (''weight'', [Fin 65, Fin 70])]"
  let ?c = "[(''height'', []), (''weight'', [])] :: datasets"
  have v: "valid_datasets ?a" "valid_datasets ?b" "valid_datasets ?c"
    by (simp_all add: valid_datasets_def)
  note a = correlation_diagonal [OF v(1), of simple_statistics]
  note b = correlation_diagonal [OF v(2), of simple_statistics]
  note c = correlation_diagonal [OF v(3), of simple_statistics]
  from a obtain r where r: "correlation simple_statistics (Some ?a) = Inr r" by auto
  with a have "entry (correlation_matrix r) ''height'' ''height'' = Some (Fin 1)" by simp
  with r have first: "\<exists>r. correlation simple_statistics (Some ?a) = Inr r
      \<and> entry (correlation_matrix r) ''height'' ''height'' = Some (Fin 1)" by blast
  from b obtain q where q: "correlation simple_statistics (Some ?b) = Inr q" by auto
  with b have "entry (correlation_matrix q) ''__proto__'' ''__proto__'' = None"
    "entry (correlation_matrix q) ''weight'' ''weight'' = Some (Fin 1)" by simp_all
  with q have second: "\<exists>r. correlation simple_statistics (Some ?b) = Inr r
      \<and> entry (correlation_matrix r) ''__proto__'' ''__proto__'' = None
      \<and> entry (correlation_matrix r) ''weight'' ''weight'' = Some (Fin 1)" by blast
  from c have third: "correlation simple_statistics (Some ?c) = Inl InternalError" by simp
  from first second third show ?thesis by blast
qed

text \<open>
  Claim C10. For every valid request, every off-diagonal p-value of the response is
  exactly 1 and every diagonal p-value is exactly 0, whatever the data and the
  t-statistic: the function used for the distribution of t is the constant 0.5, and
  \<open>2 (1 - 0.5) = 1\<close>. Every pair of variables has a p-value, but for the name
  \<open>__proto__\<close>, which has no row and no entry. A response with p-values is returned
  when the arrays are not empty.
\<close>

theorem correlation_p_values:
  assumes "valid_datasets ds"
  shows "(\<forall>r v w x. correlation lib (Some ds) = Inr r \<and> entry (p_values r) v w = Some x
            \<longrightarrow> x = (if v = w then Fin 0 else Fin 1))
       \<and> (\<forall>r v w. correlation lib (Some ds) = Inr r
              \<and> v \<in> set (map fst ds) \<and> w \<in> set (map fst ds) \<longrightarrow>
            entry (p_values r) v w
              = (if v = ''__proto__'' \<or> w = ''__proto__'' then None
                 else Some (if v = w then Fin 0 else Fin 1)))
       \<and> (snd (hd ds) \<noteq> [] \<longrightarrow> (\<exists>r. correlation lib (Some ds) = Inr r))
       \<and> tDistribution t df = Fin 0.5"
proof (cases "snd (hd ds) = []")
  case True
  then show ?thesis by (simp add: correlation_throws [OF assms] tDistribution_def)
next
  case False
  from assms have d: "distinct (map fst ds)" by (simp add: valid_datasets_def)
  let ?M = "fold (store_row lib ds (map fst ds)) [0..<length (map fst ds)] (Map.empty, Map.empty)"
  note ok = correlation_accepts [OF assms False, of lib]
  have variables: "entry (snd ?M) v w
      = (if v = ''__proto__'' \<or> w = ''__proto__'' then None
         else Some (if v = w then Fin 0 else Fin 1))"
    if "v \<in> set (map fst ds)" and "w \<in> set (map fst ds)" for v w
  proof -
    from that(1) obtain i where i: "i < length (map fst ds)" "map fst ds ! i = v"
      by (auto simp: in_set_conv_nth)
    from that(2) obtain j where j: "j < length (map fst ds)" "map fst ds ! j = w"
      by (auto simp: in_set_conv_nth)
    have eq: "v = w \<longleftrightarrow> i = j"
      using nth_eq_iff_index_eq [OF d i(1) j(1)] unfolding i(2) j(2) .
    from matrices_entries(2) [OF d i(1) j(1), of lib ds] i j eq show ?thesis
      by (simp add: entry_values_def)
  qed
  have any: "x = (if v = w then Fin 0 else Fin 1)" if "entry (snd ?M) v w = Some x" for v w x
  proof -
    from matrices_entries_only [OF d, of lib ds v w x] that
    have "v \<in> set (map fst ds)" "w \<in> set (map fst ds)" by auto
    from variables [OF this] that show ?thesis by (simp split: if_splits)
  qed
  show ?thesis
    using False variables any by (auto simp: ok tDistribution_def)
qed

theorem correlation_p_values_witness:
  "(\<exists>r. correlation simple_statistics
          (Some [(''height'', [Fin 170, Fin 175, Fin 180]), (''weight'', [Fin 65, Fin 70, Fin 80])])
        = Inr r
      \<and> entry (p_values r) ''height'' ''weight'' = Some (Fin 1)
      \<and> entry (p_values r) ''weight'' ''weight'' = Some (Fin 0))"
proof -
  let ?ds = "[(''height'', [Fin 170, Fin 175, Fin 180]), (''weight'', [Fin 65, Fin 70, Fin 80])]"
  have v: "valid_datasets ?ds" by (simp add: valid_datasets_def)
  note t = correlation_p_values [OF v, of simple_statistics "Fin 0" "Fin 1"]
  from t obtain r where r: "correlation simple_statistics (Some ?ds) = Inr r" by auto
  from t r have "entry (p_values r) ''height'' ''weight'' = Some (Fin 1)"
    "entry (p_values r) ''weight'' ''weight'' = Some (Fin 0)"
    by simp_all
  with r show ?thesis by blast
qed

section \<open>Properties of the parser\<close>

lemma digits_nth: "(n::nat) < 10 \<Longrightarrow> digits ! n \<in> set digits"
  by (rule nth_mem) (simp add: digits_def)

lemma digit_value_nth:
  assumes "(n::nat) < 10"
  shows "digit_value (digits ! n) = n"
proof -
  have "\<forall>k\<in>set [0..<10]. digit_value (digits ! k) = k"
    by code_simp
  with assms show ?thesis by simp
qed

lemma digit_facts:
  assumes "c \<in> set digits"
  shows "\<not> is_space c" "c \<noteq> CHR ''+''" "c \<noteq> CHR ''-''" "c \<noteq> CHR ''x''" "c \<noteq> CHR ''X''"
    "is_digit_of 10 c" "digit_value c < 10"
  using assms by (auto simp: digits_def is_space_def is_digit_of_def digit_value_def)

subsection \<open>Rounding of integers\<close>

text \<open>
  The double nearest to \<open>2 ^ 53 + 1\<close> is \<open>2 ^ 53\<close>: the tie between \<open>2 ^ 53\<close> and
  \<open>2 ^ 53 + 2\<close> goes to the even significand.
\<close>

lemma round64_above_safe: "round64 (2 ^ 53 + 1) = Fin (2 ^ 53)"
proof -
  let ?x = "(2::real) ^ 53 + 1"
  have l: "\<lfloor>log 2 \<bar>?x\<bar>\<rfloor> = 53"
    using floor_log2_eq [of 53 "\<bar>?x\<bar>"] by simp
  have k: "ulp_exponent ?x = 1" by (simp only: ulp_exponent_def l)
  have fl: "\<lfloor>?x / 2 ^ 1\<rfloor> = 2 ^ 52"
    by (simp add: floor_eq_iff)
  have r: "round_half_even (?x / 2 ^ 1) = 2 ^ 52"
    unfolding round_half_even_def Let_def fl by simp
  have q: "(2::real) powi 1 = 2 ^ 1" by simp
  show ?thesis
    unfolding round64_def Let_def k q r by simp
qed

text \<open>
  A number from \<open>2 ^ 53\<close> on is rounded to a double from \<open>2 ^ 53\<close> on, so the only
  natural number that is read as a natural number below \<open>2 ^ 53\<close> is that number.
\<close>

lemma round64_large:
  assumes "2 ^ 53 \<le> x" and "round64 x = Fin y"
  shows "2 ^ 53 \<le> y"
proof -
  have "(0::real) < 2 ^ 53" by simp
  with assms(1) have pos: "0 < x" by linarith
  define e where "e = \<lfloor>log 2 x\<rfloor>"
  have b: "2 powi e \<le> x" "x < 2 powi (e + 1)"
    unfolding e_def using floor_log2_bounds [OF pos] by simp_all
  have "(2::real) powi 53 < 2 powi (e + 1)"
    using assms(1) b(2) by simp
  then have "53 < e + 1" by (rule pow2_less_cancel)
  then have e53: "53 \<le> e" by simp
  from pos have ax: "\<bar>x\<bar> = x" by simp
  have k: "ulp_exponent x = e - 52"
    unfolding ulp_exponent_def ax e_def [symmetric] using e53 by simp
  have q: "(2::real) powi e = 2 ^ 52 * 2 powi (e - 52)"
    using power_int_add [of "2::real" 52 "e - 52"] by simp
  have "(2::real) ^ 52 \<le> x / 2 powi (e - 52)"
    using b(1) by (simp add: q pos_le_divide_eq)
  then have "real_of_int (2 ^ 52) \<le> x / 2 powi (e - 52)" by simp
  then have r: "2 ^ 52 \<le> round_half_even (x / 2 powi (e - 52))"
    by (rule round_half_even_ge)
  have y: "y = of_int (round_half_even (x / 2 powi (e - 52))) * 2 powi (e - 52)"
    using assms(2) pos by (simp add: round64_def Let_def k split: if_splits)
  have "(2::real) ^ 53 = 2 ^ 52 * 2 powi 1" by simp
  also have "\<dots> \<le> 2 ^ 52 * 2 powi (e - 52)"
    using e53 by (intro mult_left_mono power_int_increasing) simp_all
  also have "\<dots> \<le> of_int (round_half_even (x / 2 powi (e - 52))) * 2 powi (e - 52)"
  proof -
    from r have "real_of_int (2 ^ 52) \<le> of_int (round_half_even (x / 2 powi (e - 52)))"
      by (simp only: of_int_le_iff)
    then show ?thesis by (intro mult_right_mono) simp_all
  qed
  finally show ?thesis by (simp add: y)
qed

lemma not_read_as_safe:
  fixes v m :: nat
  assumes "v \<noteq> m" and "m < 2 ^ 53"
  shows "round64 (real v) \<noteq> Fin (real m)"
proof (cases "v < 2 ^ 53")
  case True
  with assms(1) show ?thesis by (simp add: round64_of_nat)
next
  case False
  then have "(2::real) ^ 53 \<le> real v"
    by (metis not_less of_nat_le_iff of_nat_numeral of_nat_power)
  show ?thesis
  proof
    assume "round64 (real v) = Fin (real m)"
    with \<open>2 ^ 53 \<le> real v\<close> have "(2::real) ^ 53 \<le> real m" by (rule round64_large)
    then have "2 ^ 53 \<le> m"
      by (metis of_nat_le_iff of_nat_numeral of_nat_power)
    with assms(2) show False by simp
  qed
qed

subsection \<open>Numbers as strings\<close>

lemma decimal_exponent_eq:
  assumes "10 powi (n - 1) \<le> x" and "x < 10 powi n"
  shows "decimal_exponent x = n"
proof -
  have "0 < (10::real) powi (n - 1)" by simp
  with assms(1) have pos: "0 < x" by linarith
  have "(10::real) powr (of_int (n - 1)) = 10 powi (n - 1)"
    "(10::real) powr (of_int (n - 1) + 1) = 10 powi n"
    using powr_real_of_int' [of 10 "n - 1"] powr_real_of_int' [of 10 n] by simp_all
  then have "\<lfloor>log 10 x\<rfloor> = n - 1"
    using floor_log_eq_powr_iff [of x 10 "n - 1"] pos assms by simp
  then show ?thesis by (simp add: decimal_exponent_def)
qed

lemma show_nat_nonempty: "show_nat n \<noteq> []"
  by (subst show_nat.simps) simp

lemma show_nat_bounds:
  "0 < m \<Longrightarrow> 10 ^ (length (show_nat m) - 1) \<le> m \<and> m < 10 ^ length (show_nat m)"
proof (induction m rule: show_nat.induct)
  case (1 n)
  show ?case
  proof (cases "n < 10")
    case True
    with 1(2) show ?thesis by (subst (1 2) show_nat.simps) simp
  next
    case False
    define L where "L = length (show_nat (n div 10))"
    from False have "0 < n div 10" by simp
    with 1(1) False have IH: "10 ^ (L - 1) \<le> n div 10" "n div 10 < 10 ^ L"
      by (simp_all add: L_def)
    have Lpos: "0 < L" unfolding L_def using show_nat_nonempty [of "n div 10"] by simp
    then have p: "(10::nat) ^ L = 10 * 10 ^ (L - 1)" by (cases L) simp_all
    have len: "length (show_nat n) = L + 1"
      using False by (subst show_nat.simps) (simp add: L_def)
    from IH(1) have "10 ^ L \<le> n" unfolding p by simp
    moreover from IH(2) have "n < 10 ^ (L + 1)" by simp
    ultimately show ?thesis by (simp add: len)
  qed
qed

lemma show_nat_scaled:
  "0 < s \<Longrightarrow> show_nat (s * 10 ^ z) = show_nat s @ replicate z CHR ''0''"
proof (induction z)
  case 0
  then show ?case by simp
next
  case (Suc z)
  from Suc.prems have big: "\<not> s * 10 ^ Suc z < 10" by simp
  have d: "s * 10 ^ Suc z div 10 = s * 10 ^ z" "s * 10 ^ Suc z mod 10 = 0" by simp_all
  have "show_nat (s * 10 ^ Suc z) = show_nat (s * 10 ^ z) @ [digits ! 0]"
    using big by (subst show_nat.simps) (simp only: d if_False)
  also have "\<dots> = show_nat s @ replicate (Suc z) CHR ''0''"
    using Suc by (simp add: digits_def replicate_append_same)
  finally show ?case .
qed

lemma trailing_zeros: "0 < (m::nat) \<Longrightarrow> \<exists>s z. m = s * 10 ^ z \<and> \<not> 10 dvd s"
proof (induction m rule: less_induct)
  case (less m)
  show ?case
  proof (cases "10 dvd m")
    case False
    then have "m = m * 10 ^ 0 \<and> \<not> 10 dvd m" by simp
    then show ?thesis by blast
  next
    case True
    then obtain m' where m': "m = 10 * m'" by (auto elim: dvdE)
    with less.prems have "m' < m" "0 < m'" by simp_all
    with less.IH obtain s z where "m' = s * 10 ^ z" "\<not> 10 dvd s" by blast
    with m' have "m = s * 10 ^ Suc z \<and> \<not> 10 dvd s" by simp
    then show ?thesis by blast
  qed
qed

lemma power_not_dvd:
  fixes s :: nat
  assumes "\<not> 10 dvd s" and "z < e"
  shows "\<not> 10 ^ e dvd s * 10 ^ z"
proof
  assume a: "10 ^ e dvd s * 10 ^ z"
  from assms(2) have e: "e = Suc (e - Suc z) + z" by simp
  have "(10::nat) ^ e = 10 ^ Suc (e - Suc z) * 10 ^ z"
    by (subst e) (simp only: power_add)
  with a have "10 ^ Suc (e - Suc z) * 10 ^ z dvd s * (10::nat) ^ z" by simp
  then have "10 ^ Suc (e - Suc z) dvd s" by simp
  then have "10 dvd s" by (metis dvd_mult_left power_Suc)
  with assms(1) show False by simp
qed

lemma shortest_digits_upt:
  assumes "\<forall>j. a \<le> j \<and> j < k \<longrightarrow> digits_of_length x n j = None"
    and "digits_of_length x n k = Some s" and "a \<le> k" and "k < b"
  shows "shortest_digits x n [a..<b] = (s, k)"
  using assms
proof (induction "k - a" arbitrary: a)
  case 0
  then have "a = k" by simp
  with 0 show ?case by (simp add: upt_conv_Cons)
next
  case (Suc d)
  then have a: "a < k" "a < b" by simp_all
  with Suc.prems(1) have none: "digits_of_length x n a = None" by simp
  from Suc have "shortest_digits x n [Suc a..<b] = (s, k)" by simp
  with a none show ?case by (simp add: upt_conv_Cons)
qed

lemma candidate_values: "of_int (int v) * 10 powi int e = real (v * 10 ^ e)"
  by simp

text \<open>
  A positive integer below \<open>2 ^ 53\<close> is converted to its decimal digits: no shorter
  digit string is read as that integer, since it would write another integer.
\<close>

lemma positive_toString_safe:
  assumes "0 < m" and "m < 2 ^ 53"
  shows "positive_toString (real m) = show_nat m"
proof -
  from trailing_zeros [OF assms(1)] obtain s z where m: "m = s * 10 ^ z" and s10: "\<not> 10 dvd s"
    by blast
  from assms(1) m have spos: "0 < s" by (cases s) simp_all
  define k where "k = length (show_nat s)"
  define n where "n = k + z"
  have str: "show_nat m = show_nat s @ replicate z CHR ''0''"
    unfolding m using spos by (rule show_nat_scaled)
  then have len: "length (show_nat m) = n" by (simp add: n_def k_def)
  have kpos: "0 < k" unfolding k_def using show_nat_nonempty [of s] by simp
  then have npos: "0 < n" by (simp add: n_def)
  have mb: "10 ^ (n - 1) \<le> m" "m < 10 ^ n"
    using show_nat_bounds [OF assms(1)] by (simp_all add: len)
  have sb: "10 ^ (k - 1) \<le> s" "s < 10 ^ k"
    using show_nat_bounds [OF spos] by (simp_all add: k_def)
  have "(10::nat) ^ (n - 1) < 10 ^ 16"
    using mb(1) assms(2) by simp
  with power_less_imp_less_exp [of "10::nat" "n - 1" 16] have "n - 1 < 16"
    by fastforce
  then have n16: "n \<le> 16" by simp
  have de: "decimal_exponent (real m) = int n"
  proof (rule decimal_exponent_eq)
    from npos have "int n - 1 = int (n - 1)" by simp
    then have "(10::real) powi (int n - 1) = 10 powi int (n - 1)" by (simp only:)
    also have "\<dots> = real (10 ^ (n - 1))" by simp
    also have "\<dots> \<le> real m" using mb(1) by (simp only: of_nat_le_iff)
    finally show "10 powi (int n - 1) \<le> real m" .
    have "real m < real (10 ^ n)" using mb(2) by (simp only: of_nat_less_iff)
    then show "real m < 10 powi int n" by simp
  qed
  have unread: "\<not> reads_as (real m) (int v) (int e)" if "v * 10 ^ e \<noteq> m" for v e
    unfolding reads_as_def candidate_values
    using that assms(2) by (rule not_read_as_safe)
  have pre: "\<not> reads_as (real m) 1 (int n)"
    using unread [of 1 n] mb(2) by simp
  have fl: "\<lfloor>real m / 10 powi int e\<rfloor> = int (m div 10 ^ e)" for e
  proof -
    have "real m / 10 powi int e = real m / real (10 ^ e)" by simp
    then show ?thesis by (simp only: floor_divide_of_nat_eq)
  qed
  have shorter: "digits_of_length (real m) (int n) j = None" if "1 \<le> j" and "j < k" for j
  proof -
    from that have e: "int n - int j = int (n - j)" and ze: "z < n - j"
      by (simp_all add: n_def)
    have nd: "\<not> 10 ^ (n - j) dvd m"
      unfolding m using s10 ze by (rule power_not_dvd)
    have "m div 10 ^ (n - j) * 10 ^ (n - j) \<noteq> m"
      using nd by (metis dvd_triv_right)
    then have lo: "\<not> reads_as (real m) (int (m div 10 ^ (n - j))) (int (n - j))"
      by (rule unread)
    have "(m div 10 ^ (n - j) + 1) * 10 ^ (n - j) \<noteq> m"
      using nd by (metis dvd_triv_right)
    then have "\<not> reads_as (real m) (int (m div 10 ^ (n - j) + 1)) (int (n - j))"
      by (rule unread)
    then have hi: "\<not> reads_as (real m) (int (m div 10 ^ (n - j)) + 1) (int (n - j))"
      by (simp add: add.commute)
    show ?thesis
      unfolding digits_of_length_def Let_def e fl using lo hi by simp
  qed
  have exact: "digits_of_length (real m) (int n) k = Some (int s)"
  proof -
    have e: "int n - int k = int z" by (simp add: n_def)
    have q: "m div 10 ^ z = s" by (simp add: m)
    have lo: "reads_as (real m) (int s) (int z)"
      unfolding reads_as_def candidate_values m [symmetric]
      using assms(2) by (rule round64_of_nat)
    have "(s + 1) * 10 ^ z \<noteq> m" by (simp add: m)
    then have "\<not> reads_as (real m) (int (s + 1)) (int z)" by (rule unread)
    then have hi: "\<not> reads_as (real m) (int s + 1) (int z)"
      by (simp add: add.commute)
    have r: "(10::int) ^ (k - 1) \<le> int s" "int s < 10 ^ k"
      using sb by (metis of_nat_le_iff of_nat_numeral of_nat_power,
                   metis of_nat_less_iff of_nat_numeral of_nat_power)
    show ?thesis
      unfolding digits_of_length_def Let_def e fl q using lo hi r by simp
  qed
  have "shortest_digits (real m) (int n) [1..<17] = (int s, k)"
  proof (rule shortest_digits_upt)
    show "\<forall>j. 1 \<le> j \<and> j < k \<longrightarrow> digits_of_length (real m) (int n) j = None"
      using shorter by blast
    show "digits_of_length (real m) (int n) k = Some (int s)" by (rule exact)
    show "1 \<le> k" using kpos by simp
    show "k < 17" using n16 by (simp add: n_def)
  qed
  with de pre have "positive_toString (real m) = layout (int s) k (int n)"
    by (simp add: positive_toString_def Let_def)
  also have "\<dots> = show_nat s @ replicate z CHR ''0''"
    using n16 by (simp add: layout_def n_def)
  finally show ?thesis by (simp add: str)
qed

lemma Number_toString_safe:
  assumes "m < 2 ^ 53"
  shows "Number_toString (Fin (real m)) = show_nat m"
    and "0 < m \<Longrightarrow> Number_toString (Fin (- real m)) = CHR ''-'' # show_nat m"
proof -
  show "Number_toString (Fin (real m)) = show_nat m"
  proof (cases "m = 0")
    case True
    then show ?thesis by (simp add: show_nat.simps digits_def)
  next
    case False
    with assms show ?thesis by (simp add: positive_toString_safe)
  qed
  show "0 < m \<Longrightarrow> Number_toString (Fin (- real m)) = CHR ''-'' # show_nat m"
    using assms by (simp add: positive_toString_safe)
qed

lemma single_digits:
  "positive_toString 1 = ''1''" "positive_toString 2 = ''2''" "positive_toString 3 = ''3''"
  "positive_toString 4 = ''4''" "positive_toString 5 = ''5''" "positive_toString 6 = ''6''"
  "positive_toString 7 = ''7''" "positive_toString 8 = ''8''" "positive_toString 9 = ''9''"
  using positive_toString_safe [of 1] positive_toString_safe [of 2]
    positive_toString_safe [of 3] positive_toString_safe [of 4]
    positive_toString_safe [of 5] positive_toString_safe [of 6]
    positive_toString_safe [of 7] positive_toString_safe [of 8]
    positive_toString_safe [of 9]
  by (simp_all add: show_nat.simps digits_def)

text \<open>
  From \<open>10 ^ 21\<close> on the conversion uses the exponent notation.
\<close>

lemma powers_of_ten_exact:
  "round64 (10 ^ 21) = Fin (10 ^ 21)" "round64 (2 * 10 ^ 21) = Fin (2 * 10 ^ 21)"
  "round64 (10 ^ 22) = Fin (10 ^ 22)"
  using round64_nat_scaled [of "5 ^ 21" 21] round64_nat_scaled [of "5 ^ 21" 22]
    round64_nat_scaled [of "5 ^ 22" 22]
  by simp_all

lemma exponent_notation: "Number_toString (Fin (10 ^ 21)) = ''1e+21''"
proof -
  let ?x = "(10::real) ^ 21"
  note r = powers_of_ten_exact [simplified]
  have n: "decimal_exponent ?x = 22"
    by (intro decimal_exponent_eq) simp_all
  have pre: "\<not> reads_as ?x 1 22"
    by (simp add: reads_as_def r)
  have "digits_of_length ?x 22 1 = Some 1"
    by (simp add: digits_of_length_def Let_def reads_as_def r)
  then have "shortest_digits ?x 22 [1..<17] = (1, 1)"
    by (simp add: upt_conv_Cons)
  with n pre have "positive_toString ?x = layout 1 1 22"
    by (simp add: positive_toString_def Let_def)
  also have "\<dots> = ''1e+21''"
    by (simp add: layout_def show_nat.simps digits_def)
  finally show ?thesis by simp
qed

text \<open>
  A number that is not an integer is written with a decimal point: \<open>0.5\<close> has the
  one digit 5, since \<open>0.6\<close> is read as another double, and \<open>1.5\<close> has two digits,
  since 1, 2 and \<open>1.6\<close> are read as other doubles.
\<close>

lemma round64_three_fifths: "round64 (3 / 5) = Fin (5404319552844595 / 2 ^ 53)"
proof -
  let ?x = "(3::real) / 5"
  have l: "\<lfloor>log 2 \<bar>?x\<bar>\<rfloor> = - 1"
    using floor_log2_eq [of "- 1" "\<bar>?x\<bar>"] by simp
  have k: "ulp_exponent ?x = - 53" unfolding ulp_exponent_def l by simp
  have q: "(2::real) powi (- 53) = 1 / 2 ^ 53" by (simp add: power_int_minus field_simps)
  have fl: "\<lfloor>?x / (1 / 2 ^ 53)\<rfloor> = 5404319552844595"
    by (simp add: floor_eq_iff)
  have r: "round_half_even (?x / (1 / 2 ^ 53)) = 5404319552844595"
    unfolding round_half_even_def Let_def fl by simp
  show ?thesis
    unfolding round64_def Let_def k q r by simp
qed

lemma round64_eight_fifths: "round64 (8 / 5) = Fin (7205759403792794 / 2 ^ 52)"
proof -
  let ?x = "(8::real) / 5"
  have l: "\<lfloor>log 2 \<bar>?x\<bar>\<rfloor> = 0"
    using floor_log2_eq [of 0 "\<bar>?x\<bar>"] by simp
  have k: "ulp_exponent ?x = - 52" unfolding ulp_exponent_def l by simp
  have q: "(2::real) powi (- 52) = 1 / 2 ^ 52" by (simp add: power_int_minus field_simps)
  have fl: "\<lfloor>?x / (1 / 2 ^ 52)\<rfloor> = 7205759403792793"
    by (simp add: floor_eq_iff)
  have r: "round_half_even (?x / (1 / 2 ^ 52)) = 7205759403792794"
    unfolding round_half_even_def Let_def fl by simp
  show ?thesis
    unfolding round64_def Let_def k q r by simp
qed

lemma decimal_point: "Number_toString (Fin (1 / 2)) = ''0.5''"
proof -
  let ?x = "(1::real) / 2"
  have n: "decimal_exponent ?x = 0"
    by (intro decimal_exponent_eq) simp_all
  have pre: "\<not> reads_as ?x 1 0"
    by (simp add: reads_as_def)
  have "digits_of_length ?x 0 1 = Some 5"
    by (simp add: digits_of_length_def Let_def reads_as_def round64_three_fifths)
  then have "shortest_digits ?x 0 [1..<17] = (5, 1)"
    by (simp add: upt_conv_Cons)
  with n pre have "positive_toString ?x = layout 5 1 0"
    by (simp add: positive_toString_def Let_def)
  also have "\<dots> = ''0.5''"
    by (simp add: layout_def show_nat.simps digits_def)
  finally show ?thesis by simp
qed

lemma decimal_point_inside: "Number_toString (Fin (3 / 2)) = ''1.5''"
proof -
  let ?x = "(3::real) / 2"
  have n: "decimal_exponent ?x = 1"
    by (intro decimal_exponent_eq) simp_all
  have pre: "\<not> reads_as ?x 1 1"
    by (simp add: reads_as_def)
  have one: "digits_of_length ?x 1 1 = None"
    by (simp add: digits_of_length_def Let_def reads_as_def)
  have two: "digits_of_length ?x 1 2 = Some 15"
    by (simp add: digits_of_length_def Let_def reads_as_def round64_eight_fifths)
  have "\<forall>j. 1 \<le> j \<and> j < 2 \<longrightarrow> digits_of_length ?x 1 j = None"
  proof (intro allI impI)
    fix j :: nat
    assume "1 \<le> j \<and> j < 2"
    then have "j = 1" by simp
    with one show "digits_of_length ?x 1 j = None" by simp
  qed
  then have "shortest_digits ?x 1 [1..<17] = (15, 2)"
    using two by (rule shortest_digits_upt) simp_all
  with n pre have "positive_toString ?x = layout 15 2 1"
    by (simp add: positive_toString_def Let_def)
  also have "\<dots> = ''1.5''"
    by (simp add: layout_def show_nat.simps digits_def)
  finally show ?thesis by simp
qed

subsection \<open>parseInt and parseCoeff\<close>

lemma show_nat_digits: "set (show_nat n) \<subseteq> set digits"
proof (induction n rule: show_nat.induct)
  case (1 n)
  show ?case
  proof (cases "n < 10")
    case True
    then show ?thesis by (subst show_nat.simps) (simp add: digits_nth)
  next
    case False
    have "n mod 10 < 10" by simp
    with False 1 show ?thesis by (subst show_nat.simps) (simp add: digits_nth)
  qed
qed

lemma digits_value_snoc: "digits_value r (z @ [c]) = digits_value r z * r + digit_value c"
  by (simp add: digits_value_def)

lemma digits_value_show_nat: "digits_value 10 (show_nat n) = n"
proof (induction n rule: show_nat.induct)
  case (1 n)
  show ?case
  proof (cases "n < 10")
    case True
    then show ?thesis by (subst show_nat.simps) (simp add: digits_value_def digit_value_nth)
  next
    case False
    have "n mod 10 < 10" by simp
    with False 1 show ?thesis
      by (subst show_nat.simps) (simp add: digits_value_snoc digit_value_nth)
  qed
qed

lemma parseInt_digits:
  assumes "ds \<noteq> []" and "set ds \<subseteq> set digits"
  shows "parseInt ds = round64 (real (digits_value 10 ds))"
proof -
  from assms have h: "hd ds \<in> set digits" by (cases ds) auto
  have sp: "dropWhile is_space ds = ds"
    using assms(1) digit_facts(1) [OF h] by (cases ds) auto
  have nohex: "take 2 ds \<noteq> ''0x''" "take 2 ds \<noteq> ''0X''"
    using assms digit_facts(4,5) by (cases ds; cases "tl ds"; auto)+
  have tw: "takeWhile (is_digit_of 10) ds = ds"
    using assms(2) digit_facts(6) by (auto simp: takeWhile_eq_all_conv)
  show ?thesis
    by (simp add: parseInt_def sp Let_def tw nohex assms(1) digit_facts(2,3) [OF h])
qed

lemma parseInt_signed:
  assumes "ds \<noteq> []" and "set ds \<subseteq> set digits"
  shows "parseInt (CHR ''+'' # ds) = round64 (real (digits_value 10 ds))"
    and "parseInt (CHR ''-'' # ds) = jneg (round64 (real (digits_value 10 ds)))"
proof -
  have nohex: "take 2 ds \<noteq> ''0x''" "take 2 ds \<noteq> ''0X''"
    using assms digit_facts(4,5) by (cases ds; cases "tl ds"; auto)+
  have tw: "takeWhile (is_digit_of 10) ds = ds"
    using assms(2) digit_facts(6) by (auto simp: takeWhile_eq_all_conv)
  show "parseInt (CHR ''+'' # ds) = round64 (real (digits_value 10 ds))"
    by (simp add: parseInt_def is_space_def Let_def tw nohex assms(1))
  show "parseInt (CHR ''-'' # ds) = jneg (round64 (real (digits_value 10 ds)))"
    by (simp add: parseInt_def is_space_def Let_def tw nohex assms(1))
qed

lemma parseCoeff_signs:
  "parseCoeff None = Fin 1" "parseCoeff (Some []) = Fin 1"
  "parseCoeff (Some ''+'') = Fin 1" "parseCoeff (Some ''-'') = Fin (- 1)"
  by (simp_all add: parseCoeff_def)

lemma parseCoeff_digits:
  assumes "ds \<noteq> []" and "set ds \<subseteq> set digits"
  shows "parseCoeff (Some ds) = round64 (real (digits_value 10 ds))"
    and "parseCoeff (Some (CHR ''+'' # ds)) = round64 (real (digits_value 10 ds))"
    and "parseCoeff (Some (CHR ''-'' # ds)) = jneg (round64 (real (digits_value 10 ds)))"
proof -
  from assms have h: "hd ds \<in> set digits" by (cases ds) auto
  from assms(1) digit_facts(2,3) [OF h] have "ds \<noteq> ''+''" "ds \<noteq> ''-''"
    by auto
  then show "parseCoeff (Some ds) = round64 (real (digits_value 10 ds))"
    using assms by (simp add: parseCoeff_def parseInt_digits)
  show "parseCoeff (Some (CHR ''+'' # ds)) = round64 (real (digits_value 10 ds))"
    using assms by (simp add: parseCoeff_def parseInt_signed)
  show "parseCoeff (Some (CHR ''-'' # ds)) = jneg (round64 (real (digits_value 10 ds)))"
    using assms by (simp add: parseCoeff_def parseInt_signed)
qed

text \<open>
  A coefficient below \<open>2 ^ 53\<close> in magnitude that is converted to a string is read
  back by \<open>parseCoeff\<close> as itself.
\<close>

lemma parseCoeff_Number_toString:
  assumes "m < 2 ^ 53"
  shows "parseCoeff (Some (Number_toString (Fin (real m)))) = Fin (real m)"
    and "0 < m \<Longrightarrow> parseCoeff (Some (Number_toString (Fin (- real m)))) = Fin (- real m)"
proof -
  note d = parseCoeff_digits [OF show_nat_nonempty show_nat_digits, of m]
  show "parseCoeff (Some (Number_toString (Fin (real m)))) = Fin (real m)"
    unfolding Number_toString_safe(1) [OF assms]
    using assms d(1) by (simp add: digits_value_show_nat round64_of_nat)
  show "parseCoeff (Some (Number_toString (Fin (- real m)))) = Fin (- real m)" if "0 < m"
    unfolding Number_toString_safe(2) [OF assms that]
    using assms d(3) by (simp add: digits_value_show_nat round64_of_nat)
qed

lemma token_values:
  "digits_value 10 ''007'' = 7" "digits_value 10 ''3'' = 3" "digits_value 10 ''0'' = 0"
  "digits_value 10 ''9007199254740993'' = 9007199254740993"
  by (simp_all add: digits_value_def digit_value_def)

lemma token_digits:
  "''007'' \<noteq> [] \<and> set ''007'' \<subseteq> set digits" "''3'' \<noteq> [] \<and> set ''3'' \<subseteq> set digits"
  "''0'' \<noteq> [] \<and> set ''0'' \<subseteq> set digits"
  "''9007199254740993'' \<noteq> [] \<and> set ''9007199254740993'' \<subseteq> set digits"
  by (simp_all add: digits_def)

lemma round64_above_safe_numeral: "round64 9007199254740993 = Fin 9007199254740992"
  using round64_above_safe by simp

lemma parse_tokens:
  "parseCoeff (Some ''0'') = Fin 0" "parseCoeff (Some ''+0'') = Fin 0"
  "parseCoeff (Some ''-07'') = Fin (- 7)" "parseCoeff (Some ''-3'') = Fin (- 3)"
  "parseCoeff (Some ''+5'') = Fin 5" "parseCoeff (Some ''-4'') = Fin (- 4)"
  by (simp_all add: parseCoeff_def parseInt_def is_space_def is_digit_of_def digit_value_def
      digits_value_def)

text \<open>
  Claim C8, as the code has it. \<open>parseCoeff\<close> maps an absent or empty token and a
  bare \<open>+\<close> to 1 and a bare \<open>-\<close> to -1, and reads every other token of a group, an
  optional sign before decimal digits, as the double nearest to its integer value:
  the integer value itself when that is below \<open>2 ^ 53\<close>. \<open>parseEquation\<close> takes each
  coefficient of a matched input from \<open>parseCoeff\<close> of a captured token, with one
  exception: a leading coefficient \<open>a\<close> whose token has the value 0 is replaced by 1
  (the \<open>|| 1\<close> of the source).
\<close>

theorem parseCoeff_rule:
  "parseCoeff None = Fin 1 \<and> parseCoeff (Some []) = Fin 1
   \<and> parseCoeff (Some ''+'') = Fin 1 \<and> parseCoeff (Some ''-'') = Fin (- 1)
   \<and> (ds \<noteq> [] \<and> set ds \<subseteq> set digits \<longrightarrow>
        parseCoeff (Some ds) = round64 (real (digits_value 10 ds))
        \<and> parseCoeff (Some (CHR ''+'' # ds)) = round64 (real (digits_value 10 ds))
        \<and> parseCoeff (Some (CHR ''-'' # ds)) = jneg (round64 (real (digits_value 10 ds))))
   \<and> (ds \<noteq> [] \<and> set ds \<subseteq> set digits \<and> digits_value 10 ds < 2 ^ 53 \<longrightarrow>
        parseCoeff (Some ds) = Fin (real (digits_value 10 ds))
        \<and> parseCoeff (Some (CHR ''+'' # ds)) = Fin (real (digits_value 10 ds))
        \<and> parseCoeff (Some (CHR ''-'' # ds)) = Fin (- real (digits_value 10 ds)))
   \<and> (first_match quadratic_patterns (strip_lower s) = Some m \<longrightarrow>
        (\<exists>formatted. parseEquation s = Parsed (QuadraticCoefficients
            (if parseCoeff (js_nth m 0) = Fin 0 \<or> parseCoeff (js_nth m 0) = NaN
             then Fin 1 else parseCoeff (js_nth m 0))
            (if truthy (js_nth m 1) then parseCoeff (js_nth m 1) else Fin 0)
            (if truthy (js_nth m 2) then parseCoeff (js_nth m 2) else parseCoeff (js_nth m 1)))
          formatted))
   \<and> (first_match quadratic_patterns (strip_lower s) = None
        \<and> first_match linear_patterns (strip_lower s) = Some m \<longrightarrow>
        (\<exists>formatted. parseEquation s = Parsed (LinearCoefficients
            (if parseCoeff (js_nth m 0) = Fin 0 \<or> parseCoeff (js_nth m 0) = NaN
             then Fin 1 else parseCoeff (js_nth m 0))
            (if parseCoeff (js_nth m 1) = NaN then Fin 0 else parseCoeff (js_nth m 1)))
          formatted))"
  using parseCoeff_digits [of ds] round64_of_nat [of "digits_value 10 ds"]
  by (auto simp: parseCoeff_signs parseEquation_def or_else_def Let_def)

theorem parseCoeff_rule_witness:
  "parseCoeff (Some ''007'') = Fin 7 \<and> parseCoeff (Some ''-3'') = Fin (- 3)
   \<and> parseCoeff (Some ''+0'') = Fin 0
   \<and> parseCoeff (Some ''9007199254740993'') = Fin 9007199254740992
   \<and> parseEquation ''0x^2 + 0X - 07 = 0''
       = Parsed (QuadraticCoefficients (Fin 1) (Fin 0) (Fin (- 7)))
           ([CHR ''x'', SUP2] @ '' - 7 = 0'')
   \<and> parseEquation ''-3x + 5 = 0'' = Parsed (LinearCoefficients (Fin (- 3)) (Fin 5)) ''-3x + 5 = 0''"
proof -
  have q: "first_match quadratic_patterns (strip_lower ''0x^2 + 0X - 07 = 0'') = Some [''0'', ''+0'', ''-07'']"
    by code_simp
  have l: "first_match quadratic_patterns (strip_lower ''-3x + 5 = 0'') = None
           \<and> first_match linear_patterns (strip_lower ''-3x + 5 = 0'') = Some [''-3'', ''+5'']"
    by code_simp
  have "parseCoeff (Some ''007'') = Fin 7"
    using parseCoeff_rule [of "''007''" "[]" "[]"] token_digits token_values by simp
  moreover have "parseCoeff (Some ''-3'') = Fin (- 3)"
    using parseCoeff_rule [of "''3''" "[]" "[]"] token_digits token_values by simp
  moreover have "parseCoeff (Some ''+0'') = Fin 0"
    using parseCoeff_rule [of "''0''" "[]" "[]"] token_digits token_values by simp
  moreover have "parseCoeff (Some ''9007199254740993'') = Fin 9007199254740992"
    using parseCoeff_rule [of "''9007199254740993''" "[]" "[]"] token_digits token_values round64_above_safe_numeral
    by simp
  moreover have "\<exists>f. parseEquation ''0x^2 + 0X - 07 = 0''
       = Parsed (QuadraticCoefficients (Fin 1) (Fin 0) (Fin (- 7))) f"
    using parseCoeff_rule [of "''0''" "''0x^2 + 0X - 07 = 0''" "[''0'', ''+0'', ''-07'']"] q
    by (simp add: js_nth_def truthy_def parse_tokens)
  moreover have "\<exists>f. parseEquation ''-3x + 5 = 0'' = Parsed (LinearCoefficients (Fin (- 3)) (Fin 5)) f"
    using parseCoeff_rule [of "''0''" "''-3x + 5 = 0''" "[''-3'', ''+5'']"] l
    by (simp add: js_nth_def truthy_def parse_tokens)
  moreover have "parseEquation ''0x^2 + 0X - 07 = 0''
       = Parsed (QuadraticCoefficients (Fin 1) (Fin 0) (Fin (- 7)))
           ([CHR ''x'', SUP2] @ '' - 7 = 0'')"
    unfolding parseEquation_def Let_def q
    by (simp add: js_nth_def parse_tokens or_else_def truthy_def
        formatQuadraticEquation_def strict_eq_def jgt_def single_digits)
  moreover have "parseEquation ''-3x + 5 = 0'' = Parsed (LinearCoefficients (Fin (- 3)) (Fin 5)) ''-3x + 5 = 0''"
    unfolding parseEquation_def Let_def
    using l
    by (simp add: js_nth_def parse_tokens or_else_def truthy_def
        formatLinearEquation_def strict_eq_def jgt_def single_digits)
  ultimately show ?thesis by blast
qed

text \<open>
  Claim C8 as stated fails for the leading coefficient: in \<open>0x + 5 = 0\<close> the linear
  pattern captures the token \<open>0\<close> for \<open>a\<close>, whose value is 0, and the coefficient
  returned is 1.
\<close>

theorem leading_zero_counterexample:
  "first_match quadratic_patterns (strip_lower ''0x + 5 = 0'') = None
   \<and> first_match linear_patterns (strip_lower ''0x + 5 = 0'') = Some [''0'', ''+5'']
   \<and> parseCoeff (Some ''0'') = Fin 0
   \<and> parseEquation ''0x + 5 = 0'' = Parsed (LinearCoefficients (Fin 1) (Fin 5)) ''x + 5 = 0''"
proof -
  have m: "first_match quadratic_patterns (strip_lower ''0x + 5 = 0'') = None"
    "first_match linear_patterns (strip_lower ''0x + 5 = 0'') = Some [''0'', ''+5'']"
    by code_simp+
  show ?thesis
    unfolding parseEquation_def Let_def m
    by (simp add: js_nth_def parse_tokens or_else_def formatLinearEquation_def strict_eq_def
        jgt_def single_digits)
qed

text \<open>
  A coefficient token of 22 digits: the coefficient is the double \<open>10 ^ 21\<close>, and the
  formatted equation writes it in the exponent notation.
\<close>

lemma exponent_notation_in_formatted:
  "parseEquation ''1000000000000000000000x + 5 = 0''
     = Parsed (LinearCoefficients (Fin (10 ^ 21)) (Fin 5)) ''1e+21x + 5 = 0''"
proof -
  have m: "first_match quadratic_patterns (strip_lower ''1000000000000000000000x + 5 = 0'') = None"
    "first_match linear_patterns (strip_lower ''1000000000000000000000x + 5 = 0'')
       = Some [''1000000000000000000000'', ''+5'']"
    by code_simp+
  have v: "digits_value 10 ''1000000000000000000000'' = 10 ^ 21"
    by (simp add: digits_value_def digit_value_def)
  have a: "parseCoeff (Some ''1000000000000000000000'') = Fin (10 ^ 21)"
    using parseCoeff_digits(1) [of "''1000000000000000000000''"] powers_of_ten_exact(1)
    by (simp add: v digits_def)
  have f: "formatLinearEquation (Fin (10 ^ 21)) (Fin 5) = ''1e+21x + 5 = 0''"
    unfolding formatLinearEquation_def exponent_notation
    by (simp add: strict_eq_def jgt_def single_digits)
  show ?thesis
    unfolding parseEquation_def Let_def m
    by (simp add: js_nth_def a [simplified] parse_tokens or_else_def f [simplified])
qed

text \<open>
  Claim C1 fails on the code. The triple \<open>(1, 0, -4)\<close> is formatted as
  \<open>x\<^sup>2 - 4 = 0\<close>, a string of the pattern grammar (the fourth quadratic pattern
  matches it, and it is one of the parser's own suggestions); \<open>parseEquation\<close> returns
  the coefficients \<open>(1, -4, -4)\<close>, since for the patterns without a linear term
  both \<open>b\<close> and \<open>c\<close> are read from the second group.
\<close>

theorem roundtrip_without_linear_term:
  "formatQuadraticEquation (Fin 1) (Fin 0) (Fin (- 4)) = [CHR ''x'', SUP2] @ '' - 4 = 0''
   \<and> formatQuadraticEquation (Fin 1) (Fin 0) (Fin (- 4)) \<in> set suggestions
   \<and> parseEquation (formatQuadraticEquation (Fin 1) (Fin 0) (Fin (- 4)))
       = Parsed (QuadraticCoefficients (Fin 1) (Fin (- 4)) (Fin (- 4)))
           ([CHR ''x'', SUP2] @ '' - 4x - 4 = 0'')"
proof -
  have f: "formatQuadraticEquation (Fin 1) (Fin 0) (Fin (- 4)) = [CHR ''x'', SUP2] @ '' - 4 = 0''"
    by (simp add: formatQuadraticEquation_def strict_eq_def jgt_def single_digits)
  have m: "first_match quadratic_patterns (strip_lower ([CHR ''x'', SUP2] @ '' - 4 = 0''))
      = Some ['''', ''-4'']"
    by code_simp
  have p: "parseEquation ([CHR ''x'', SUP2] @ '' - 4 = 0'')
       = Parsed (QuadraticCoefficients (Fin 1) (Fin (- 4)) (Fin (- 4)))
           ([CHR ''x'', SUP2] @ '' - 4x - 4 = 0'')"
    unfolding parseEquation_def Let_def m
    by (simp add: js_nth_def parse_tokens parseCoeff_signs or_else_def truthy_def
        formatQuadraticEquation_def strict_eq_def jgt_def single_digits)
  show ?thesis unfolding f using p by (simp add: suggestions_def)
qed

end
